theory Spec2Isabelle
  imports Complex_Main "HOL-Library.AList" "HOL-Library.Multiset"
begin

section \<open>JavaScript strings and numbers\<close>

text \<open>
  A JavaScript string is modelled as a \<^typ>\<open>string\<close>: a list of code units, each below 256.
  The relational operators of \<open>server.js\<close> on strings (\<open>s.sold_at >= start\<close>) compare
  code unit by code unit; a proper prefix is smaller.
\<close>

fun js_lt :: "string \<Rightarrow> string \<Rightarrow> bool" where
  "js_lt xs [] = False"
| "js_lt [] (y # ys) = True"
| "js_lt (x # xs) (y # ys) =
     (if x = y then js_lt xs ys else (of_char x :: nat) < of_char y)"

definition js_ge :: "string \<Rightarrow> string \<Rightarrow> bool" where
  "js_ge a b = (\<not> js_lt a b)"

definition js_le :: "string \<Rightarrow> string \<Rightarrow> bool" where
  "js_le a b = (\<not> js_lt b a)"

definition digit_char :: "nat \<Rightarrow> char" where
  "digit_char n = char_of (48 + n)"

text \<open>Decimal digits of a natural number, most significant first (no leading zero).\<close>

function digits :: "nat \<Rightarrow> string" where
  "digits n = (if n < 10 then [digit_char n] else digits (n div 10) @ [digit_char (n mod 10)])"
  by pat_completeness auto
termination
  by (relation "measure (\<lambda>n. n)") auto

declare digits.simps [simp del]

text \<open>\<open>String(n)\<close> of an integer-valued number, as a template literal or \<open>join\<close> renders it.\<close>

definition js_string_of_int :: "int \<Rightarrow> string" where
  "js_string_of_int i = (if i < 0 then CHR ''-'' # digits (nat (- i)) else digits (nat i))"

text \<open>\<open>Array.prototype.join\<close> on an array of strings.\<close>

fun js_join :: "string \<Rightarrow> string list \<Rightarrow> string" where
  "js_join sep [] = []"
| "js_join sep [x] = x"
| "js_join sep (x # y # ys) = x @ sep @ js_join sep (y # ys)"

text \<open>
  \<open>String.prototype.split\<close> with a one-character separator: the empty string gives one
  empty component; \<open>n\<close> separators give \<open>n + 1\<close> components.
\<close>

fun js_split :: "char \<Rightarrow> string \<Rightarrow> string list" where
  "js_split c [] = [[]]"
| "js_split c (x # xs) =
     (if x = c then [] # js_split c xs
      else (case js_split c xs of [] \<Rightarrow> [[x]] | p # ps \<Rightarrow> (x # p) # ps))"

text \<open>
  \<open>String.prototype.trim\<close>: white space among the code units below 256 is TAB, LF, VT, FF,
  CR, SPACE and NO-BREAK SPACE.
\<close>

definition is_js_space :: "char \<Rightarrow> bool" where
  "is_js_space c = ((of_char c :: nat) \<in> {9, 10, 11, 12, 13, 32, 160})"

definition js_trim :: "string \<Rightarrow> string" where
  "js_trim s = rev (dropWhile is_js_space (rev (dropWhile is_js_space s)))"

section \<open>The data model\<close>

text \<open>
  Modelled from the spec: the schema and the store are not part of \<open>server.js\<close>. The
  \<open>sold_at\<close> column of \<open>sales\<close> is a calendar date, and the store hands a date to the
  handlers as a zero-padded ISO string \<open>YYYY-MM-DD\<close>.
\<close>

record date =
  year :: nat
  month :: nat
  day :: nat

definition valid_date :: "date \<Rightarrow> bool" where
  "valid_date d = (year d \<le> 9999 \<and> 1 \<le> month d \<and> month d \<le> 12 \<and> 1 \<le> day d \<and> day d \<le> 31)"

definition pad2 :: "nat \<Rightarrow> string" where
  "pad2 n = [digit_char (n div 10 mod 10), digit_char (n mod 10)]"

definition pad4 :: "nat \<Rightarrow> string" where
  "pad4 n = [digit_char (n div 1000 mod 10), digit_char (n div 100 mod 10),
             digit_char (n div 10 mod 10), digit_char (n mod 10)]"

definition iso_date :: "date \<Rightarrow> string" where
  "iso_date d = pad4 (year d) @ ''-'' @ pad2 (month d) @ ''-'' @ pad2 (day d)"

text \<open>
  Rows of the store's tables, with the columns \<open>server.js\<close> names. A product row carries the
  rows its two foreign keys join to: \<open>categories\<close> and \<open>subcategories\<close> are \<open>None\<close> where
  the relation is absent. Prices are the store's decimals.
\<close>

record category =
  category_name :: string

record subcategory =
  subcat_name :: "string option"

record product =
  id_product :: int
  name :: string
  brand :: string
  id_category :: int
  production_city :: string
  production_country :: string
  is_trending :: bool
  is_high_margin :: bool
  eco_friendly :: bool
  season :: "string option"
  categories :: "category option"
  subcategories :: "subcategory option"

record menu_item =
  id_menu_item :: int
  business_id :: int
  product_id :: int
  price :: rat
  created_at :: string

record sale_row =
  menu_item_id :: int
  sold_on :: date

record business =
  id_business :: int
  email :: string
  password :: "string option"
  horeca_name :: string
  manager_first_name :: string
  manager_last_name :: string
  address :: "string option"

record store =
  t_business_info :: "business list"
  t_products :: "product list"
  t_menu_items :: "menu_item list"
  t_sales :: "sale_row list"

text \<open>The session's \<open>user\<close> object, set by the login handler.\<close>

record session_user =
  su_id :: int
  su_email :: string
  su_horeca_name :: string
  su_manager_first_name :: string
  su_manager_last_name :: string

type_synonym session = "session_user option"

text \<open>
  A store call answers \<open>{data, error}\<close>. Whether the \<open>n\<close>-th store call of a request fails is
  outside the program: it is a parameter, \<open>fails n = Some msg\<close> when that call reports \<open>msg\<close>.
\<close>

datatype 'a result = Error string | Data 'a

type_synonym failures = "nat \<Rightarrow> string option"

text \<open>
  Exceptions: a \<open>TypeError\<close> of the language (a property read on \<open>null\<close>), and the
  \<open>Error('Illegal arguments: ...')\<close> that the password hasher throws.
\<close>

datatype js_error = TypeError | IllegalArguments

section \<open>Responses\<close>

record menu_item_view =
  mv_id_menu_item :: int
  mv_price :: rat
  mv_created_at :: string
  mv_item_name :: string
  mv_producent :: string
  mv_category :: string
  mv_subcategory :: string

record sales_stat_view =
  sv_id_menu_item :: int
  sv_item_name :: string
  sv_producent :: string
  sv_category :: string
  sv_subcategory :: string
  sv_price :: rat
  sv_created_at :: string
  sv_total_sold :: nat
  sv_last_year_sold :: nat
  sv_is_trending :: bool
  sv_is_high_margin :: bool
  sv_eco_friendly :: bool
  sv_season :: "string option"
  sv_prodCity :: string
  sv_prodCountry :: string

record last_year_view =
  ly_id_menu_item :: int
  ly_id_category :: int
  ly_item_name :: string
  ly_producent :: string
  ly_category :: string
  ly_subcategorie :: string
  ly_price :: rat
  ly_created_at :: string
  ly_land :: string
  ly_stad :: string
  ly_total_sold :: nat
  ly_is_trending :: bool
  ly_is_high_margin :: bool
  ly_eco_friendly :: bool
  ly_season :: string

record catalog_view =
  cv_id :: int
  cv_name :: string
  cv_brand :: string
  cv_category :: string
  cv_prodCity :: string
  cv_prodCountry :: string
  cv_is_trending :: bool
  cv_is_high_margin :: bool
  cv_eco_friendly :: bool
  cv_season :: "string option"

text \<open>
  A value of \<open>count_on_menu\<close>: a number, or a string when \<open>+ 1\<close> was a concatenation.
\<close>

datatype js_count = Number nat | JsString string

record category_count =
  cc_category :: string
  cc_count_on_menu :: js_count

text \<open>
  Response bodies: \<open>ErrorBody m\<close> is \<open>{error: m}\<close>, \<open>FailureBody m\<close> is
  \<open>{success: false, message: m}\<close>, \<open>SuccessBody\<close> is \<open>{success: true}\<close>. \<open>NoResponse\<close> is an
  exception that escapes an \<open>async\<close> handler without \<open>try\<close>: nothing is sent.
\<close>

datatype body =
    ErrorBody string
  | FailureBody string
  | SuccessBody
  | LoginBody int string
  | MenuItems "menu_item_view list"
  | SalesStats "sales_stat_view list"
  | LastYearStats "last_year_view list"
  | NotOnMenu "catalog_view list"
  | MenuCounts "category_count list"
  | BusinessInfo string string

datatype response = Response nat body | NoResponse

definition not_authenticated :: response where
  "not_authenticated = Response 401 (ErrorBody ''Not authenticated'')"

section \<open>The store\<close>

text \<open>
  Modelled from the spec: the store client (\<open>./lib/supabaseClient\<close> and the hosted relational
  store behind it) is not part of \<open>server.js\<close>. It supports filtered select, update and delete
  with nested (joined) projections and ordering. A row of \<open>menu_items\<close> as a select with
  embedded relations returns it: \<open>products\<close> is the product row of the foreign key
  (\<open>None\<close> when there is none), \<open>sales\<close> the sale rows of the menu item, dates as ISO strings.
\<close>

record sale =
  sold_at :: string

record menu_item_row = menu_item +
  products :: "product option"
  sales :: "sale list"

definition embed_row :: "store \<Rightarrow> menu_item \<Rightarrow> menu_item_row" where
  "embed_row s m =
     \<lparr>id_menu_item = id_menu_item m, business_id = business_id m, product_id = product_id m,
      price = price m, created_at = created_at m,
      products = find (\<lambda>p. id_product p = product_id m) (t_products s),
      sales = map (\<lambda>x. \<lparr>sold_at = iso_date (sold_on x)\<rparr>)
                (filter (\<lambda>x. menu_item_id x = id_menu_item m) (t_sales s))\<rparr>"

text \<open>\<open>.from('menu_items') ... .eq('business_id', businessId)\<close>\<close>

definition eq_business_id :: "store \<Rightarrow> int \<Rightarrow> menu_item list" where
  "eq_business_id s bid = filter (\<lambda>m. business_id m = bid) (t_menu_items s)"

text \<open>
  An embedded relation marked \<open>!inner\<close> drops the parent rows that have no such relation:
  \<open>products!inner(..., categories!inner(...))\<close> keeps the menu items whose product exists and
  has a category.
\<close>

definition inner_categories :: "menu_item_row \<Rightarrow> bool" where
  "inner_categories r = (case products r of None \<Rightarrow> False | Some p \<Rightarrow> categories p \<noteq> None)"

definition inner_subcategories :: "menu_item_row \<Rightarrow> bool" where
  "inner_subcategories r = (case products r of None \<Rightarrow> False | Some p \<Rightarrow> subcategories p \<noteq> None)"

definition store_call :: "failures \<Rightarrow> nat \<Rightarrow> 'a \<Rightarrow> 'a result" where
  "store_call fails n x = (case fails n of Some msg \<Rightarrow> Error msg | None \<Rightarrow> Data x)"

text \<open>
  \<open>.maybeSingle()\<close> answers \<open>null\<close> for no row and an error for several; \<open>.single()\<close> answers
  an error unless there is exactly one row.
\<close>

definition maybeSingle :: "'a list \<Rightarrow> 'a option result" where
  "maybeSingle rows =
     (case rows of [] \<Rightarrow> Data None | [x] \<Rightarrow> Data (Some x)
      | _ \<Rightarrow> Error ''JSON object requested, multiple (or no) rows returned'')"

definition single :: "'a list \<Rightarrow> 'a option result" where
  "single rows =
     (case rows of [x] \<Rightarrow> Data (Some x)
      | _ \<Rightarrow> Error ''JSON object requested, multiple (or no) rows returned'')"

text \<open>\<open>.delete().eq('menu_item_id', menuItemId)\<close> on \<open>sales\<close>\<close>

definition delete_sales :: "int \<Rightarrow> store \<Rightarrow> store" where
  "delete_sales menuItemId s =
     s\<lparr>t_sales := filter (\<lambda>x. menu_item_id x \<noteq> menuItemId) (t_sales s)\<rparr>"

text \<open>
  \<open>.delete({count: 'exact'}).match({id_menu_item: menuItemId, business_id: businessId})\<close> on
  \<open>menu_items\<close>: the rows that match both columns go; \<open>count\<close> is their number.
\<close>

definition match_item :: "int \<Rightarrow> int \<Rightarrow> menu_item \<Rightarrow> bool" where
  "match_item menuItemId bid m = (id_menu_item m = menuItemId \<and> business_id m = bid)"

definition delete_menu_item :: "int \<Rightarrow> int \<Rightarrow> store \<Rightarrow> nat \<times> store" where
  "delete_menu_item menuItemId bid s =
     (length (filter (match_item menuItemId bid) (t_menu_items s)),
      s\<lparr>t_menu_items := filter (\<lambda>m. \<not> match_item menuItemId bid m) (t_menu_items s)\<rparr>)"

text \<open>\<open>.update({price}).match({id_menu_item, business_id: businessId})\<close> on \<open>menu_items\<close>\<close>

record price_update =
  u_id_menu_item :: int
  u_price :: rat

definition update_price :: "int \<Rightarrow> price_update \<Rightarrow> store \<Rightarrow> store" where
  "update_price bid u s =
     s\<lparr>t_menu_items :=
         map (\<lambda>m. if match_item (u_id_menu_item u) bid m then m\<lparr>price := u_price u\<rparr> else m)
           (t_menu_items s)\<rparr>"

text \<open>
  Modelled from the spec: how the store reads the filter of the catalogue difference is not
  in \<open>server.js\<close>. The filter \<open>.not('id_product', 'in', '(1,2,3)')\<close> reaches the store as
  text. The store reads the parenthesised, comma-separated list of integers and excludes the
  products whose id is a member; \<open>()\<close> is the empty list, so that an empty exclusion set
  excludes nothing; text that is no such list is a store error.
\<close>

definition is_digit :: "char \<Rightarrow> bool" where
  "is_digit c = (48 \<le> (of_char c :: nat) \<and> (of_char c :: nat) \<le> 57)"

definition digits_value :: "string \<Rightarrow> nat" where
  "digits_value s = foldl (\<lambda>n c. 10 * n + (of_char c - 48)) 0 s"

definition pg_nat :: "string \<Rightarrow> nat option" where
  "pg_nat s = (if s \<noteq> [] \<and> list_all is_digit s then Some (digits_value s) else None)"

definition pg_int :: "string \<Rightarrow> int option" where
  "pg_int s =
     (case s of
        [] \<Rightarrow> None
      | c # r \<Rightarrow> if c = CHR ''-'' then map_option (\<lambda>n. - int n) (pg_nat r)
                 else map_option int (pg_nat s))"

definition pg_list :: "string \<Rightarrow> int list option" where
  "pg_list txt =
     (case txt of
        [] \<Rightarrow> None
      | c # rest \<Rightarrow>
          if c = CHR ''('' \<and> rest \<noteq> [] \<and> last rest = CHR '')''
          then (if butlast rest = [] then Some []
                else those (map pg_int (js_split CHR '','' (butlast rest))))
          else None)"

text \<open>
  Modelled from the spec: the store's select of the products whose \<open>id_product\<close> is not in
  the list, with \<open>categories!inner\<close>, ordered by \<open>name\<close> ascending. The store's collation is
  a parameter: \<open>okey\<close> maps a name to its place in the store's order.
\<close>

definition select_products_not_in ::
  "(string \<Rightarrow> 'k::linorder) \<Rightarrow> string \<Rightarrow> store \<Rightarrow> product list result" where
  "select_products_not_in okey txt s =
     (case pg_list txt of
        None \<Rightarrow> Error ''failed to parse filter''
      | Some ids \<Rightarrow>
          Data (sort_key (\<lambda>p. okey (name p))
                  (filter (\<lambda>p. categories p \<noteq> None \<and> id_product p \<notin> set ids) (t_products s))))"

section \<open>The request handlers of \<open>server.js\<close>\<close>

text \<open>
  \<open>Array.prototype.map\<close> and \<open>reduce\<close> with a callback that may throw: the first exception
  ends the loop.
\<close>

fun map_js :: "('a \<Rightarrow> js_error + 'b) \<Rightarrow> 'a list \<Rightarrow> js_error + 'b list" where
  "map_js f [] = Inr []"
| "map_js f (x # xs) =
     (case f x of
        Inl e \<Rightarrow> Inl e
      | Inr y \<Rightarrow> (case map_js f xs of Inl e \<Rightarrow> Inl e | Inr ys \<Rightarrow> Inr (y # ys)))"

fun reduce_js :: "('b \<Rightarrow> 'a \<Rightarrow> js_error + 'b) \<Rightarrow> 'a list \<Rightarrow> 'b \<Rightarrow> js_error + 'b" where
  "reduce_js f [] acc = Inr acc"
| "reduce_js f (x # xs) acc =
     (case f acc x of Inl e \<Rightarrow> Inl e | Inr acc' \<Rightarrow> reduce_js f xs acc')"

text \<open>\<open>sub?.subcat_name ?? ''\<close>\<close>

definition subcat_or_empty :: "subcategory option \<Rightarrow> string" where
  "subcat_or_empty sub =
     (case sub of None \<Rightarrow> [] | Some sc \<Rightarrow> (case subcat_name sc of None \<Rightarrow> [] | Some n \<Rightarrow> n))"

subsection \<open>POST /api/login\<close>

text \<open>
  \<open>req.body.password\<close> is whatever the client sent: \<open>Some\<close> of a string, or \<open>None\<close> when it
  is missing or not a string; the stored hash is a string or \<open>null\<close>. \<open>bcrypt.compareSync\<close>
  throws unless both of its arguments are strings; on two strings it answers the hasher's
  check, a parameter.
\<close>

definition bcrypt_compareSync ::
  "(string \<Rightarrow> string \<Rightarrow> bool) \<Rightarrow> string option \<Rightarrow> string option \<Rightarrow> js_error + bool" where
  "bcrypt_compareSync check s hash =
     (case s of
        None \<Rightarrow> Inl IllegalArguments
      | Some p \<Rightarrow> (case hash of None \<Rightarrow> Inl IllegalArguments | Some h \<Rightarrow> Inr (check p h)))"

text \<open>
  The handler returns the response and the session. It has no \<open>try\<close>: an exception of
  \<open>compareSync\<close> escapes it, and no response is sent.
\<close>

definition post_login ::
  "failures \<Rightarrow> (string \<Rightarrow> string \<Rightarrow> bool) \<Rightarrow> string \<Rightarrow> string option \<Rightarrow> store \<Rightarrow> session
     \<Rightarrow> response \<times> session" where
  "post_login fails check em pw s sess =
     (case (case fails 0 of
              Some msg \<Rightarrow> Error msg
            | None \<Rightarrow> maybeSingle (filter (\<lambda>b. email b = em) (t_business_info s))) of
        Error err \<Rightarrow> (Response 500 (FailureBody ''Database error''), sess)
      | Data None \<Rightarrow> (Response 401 (FailureBody ''Invalid credentials''), sess)
      | Data (Some user) \<Rightarrow>
          (case bcrypt_compareSync check pw (password user) of
             Inl thrown \<Rightarrow> (NoResponse, sess)
           | Inr matches \<Rightarrow>
               if \<not> matches
               then (Response 401 (FailureBody ''Invalid credentials''), sess)
               else (Response 200 (LoginBody (id_business user) (horeca_name user)),
                     Some \<lparr>su_id = id_business user, su_email = email user,
                           su_horeca_name = horeca_name user,
                           su_manager_first_name = manager_first_name user,
                           su_manager_last_name = manager_last_name user\<rparr>)))"

subsection \<open>GET /api/menu-items\<close>

definition flatten_menu_item :: "menu_item_row \<Rightarrow> js_error + menu_item_view" where
  "flatten_menu_item mi =
     (case products mi of
        None \<Rightarrow> Inl TypeError
      | Some p \<Rightarrow>
          (case categories p of
             None \<Rightarrow> Inl TypeError
           | Some c \<Rightarrow>
               Inr \<lparr>mv_id_menu_item = id_menu_item mi, mv_price = price mi,
                    mv_created_at = created_at mi, mv_item_name = name p,
                    mv_producent = brand p, mv_category = category_name c,
                    mv_subcategory = subcat_or_empty (subcategories p)\<rparr>))"

definition get_menu_items :: "failures \<Rightarrow> session \<Rightarrow> store \<Rightarrow> response" where
  "get_menu_items fails sess s =
     (case sess of
        None \<Rightarrow> not_authenticated
      | Some user \<Rightarrow>
          (case store_call fails 0 (map (embed_row s) (eq_business_id s (su_id user))) of
             Error msg \<Rightarrow> Response 500 (ErrorBody msg)
           | Data rows \<Rightarrow>
               (case map_js flatten_menu_item rows of
                  Inl err \<Rightarrow> NoResponse
                | Inr flattened \<Rightarrow> Response 200 (MenuItems flattened))))"

subsection \<open>DELETE /api/menu-items/:id\<close>

text \<open>\<open>menuItemId\<close> is \<open>Number(req.params.id)\<close>, taken to be an integer.\<close>

definition delete_menu_items_id ::
  "failures \<Rightarrow> session \<Rightarrow> int \<Rightarrow> store \<Rightarrow> response \<times> store" where
  "delete_menu_items_id fails sess menuItemId s =
     (case sess of
        None \<Rightarrow> (not_authenticated, s)
      | Some user \<Rightarrow>
          (case fails 0 of
             Some salesErr \<Rightarrow> (Response 500 (ErrorBody ''Failed deleting sales''), s)
           | None \<Rightarrow>
               (let s1 = delete_sales menuItemId s in
                case fails 1 of
                  Some itemErr \<Rightarrow> (Response 500 (ErrorBody ''Failed deleting menu item''), s1)
                | None \<Rightarrow>
                    (case delete_menu_item menuItemId (su_id user) s1 of
                       (count', s2) \<Rightarrow>
                         if count' = 0
                         then (Response 404 (ErrorBody ''Item not found or no rights''), s2)
                         else (Response 200 SuccessBody, s2)))))"

subsection \<open>PATCH /api/menu-items\<close>

text \<open>
  \<open>req.body.updates\<close> is an array of \<open>{id_menu_item, price}\<close> or something else. The loop
  issues one store call per element, the \<open>n\<close>-th call of the request for the \<open>n\<close>-th element,
  and throws at the first error; its result says whether it threw.
\<close>

datatype updates_payload = NotArray | Array "price_update list"

fun update_loop :: "failures \<Rightarrow> nat \<Rightarrow> int \<Rightarrow> price_update list \<Rightarrow> store \<Rightarrow> bool \<times> store" where
  "update_loop fails n bid [] s = (False, s)"
| "update_loop fails n bid (u # us) s =
     (case fails n of
        Some err \<Rightarrow> (True, s)
      | None \<Rightarrow> update_loop fails (Suc n) bid us (update_price bid u s))"

definition patch_menu_items ::
  "failures \<Rightarrow> session \<Rightarrow> updates_payload \<Rightarrow> store \<Rightarrow> response \<times> store" where
  "patch_menu_items fails sess updates s =
     (case sess of
        None \<Rightarrow> (not_authenticated, s)
      | Some user \<Rightarrow>
          (case updates of
             NotArray \<Rightarrow> (Response 400 (ErrorBody ''Invalid payload''), s)
           | Array us \<Rightarrow>
               (case update_loop fails 0 (su_id user) us s of
                  (threw, s') \<Rightarrow>
                    if threw then (Response 500 (ErrorBody ''Failed updating prices''), s')
                    else (Response 200 SuccessBody, s'))))"

subsection \<open>GET /api/sales\<close>

text \<open>The number of sales with \<open>s.sold_at >= start && s.sold_at <= end\<close>.\<close>

definition count_between :: "string \<Rightarrow> string \<Rightarrow> sale list \<Rightarrow> nat" where
  "count_between start end' xs =
     length (filter (\<lambda>s. js_ge (sold_at s) start \<and> js_le (sold_at s) end') xs)"

definition sales_stats_row :: "menu_item_row \<Rightarrow> js_error + sales_stat_view" where
  "sales_stats_row mi =
     (case products mi of
        None \<Rightarrow> Inl TypeError
      | Some prd \<Rightarrow>
          (case categories prd of
             None \<Rightarrow> Inl TypeError
           | Some cat \<Rightarrow>
               (let sub = subcategories prd;
                    thisYear = count_between ''2025-01-01'' ''2025-12-31'' (sales mi);
                    lastYear = count_between ''2024-01-01'' ''2024-12-31'' (sales mi)
                in Inr \<lparr>sv_id_menu_item = id_menu_item mi, sv_item_name = name prd,
                        sv_producent = brand prd, sv_category = category_name cat,
                        sv_subcategory = subcat_or_empty sub, sv_price = price mi,
                        sv_created_at = created_at mi, sv_total_sold = thisYear,
                        sv_last_year_sold = lastYear, sv_is_trending = is_trending prd,
                        sv_is_high_margin = is_high_margin prd,
                        sv_eco_friendly = eco_friendly prd, sv_season = season prd,
                        sv_prodCity = production_city prd,
                        sv_prodCountry = production_country prd\<rparr>)))"

definition get_sales :: "failures \<Rightarrow> session \<Rightarrow> store \<Rightarrow> response" where
  "get_sales fails sess s =
     (case sess of
        None \<Rightarrow> not_authenticated
      | Some user \<Rightarrow>
          (case store_call fails 0
                  (filter inner_categories (map (embed_row s) (eq_business_id s (su_id user)))) of
             Error err \<Rightarrow> Response 500 (ErrorBody ''Database error'')
           | Data mItems \<Rightarrow>
               (case map_js sales_stats_row mItems of
                  Inl err \<Rightarrow> Response 500 (ErrorBody ''Server error'')
                | Inr stats \<Rightarrow> Response 200 (SalesStats stats))))"

subsection \<open>GET /api/business-info\<close>

text \<open>Lines 439 to 443: \<open>row.address || ''\<close>, split at commas, trim, take the last part.\<close>

definition split_address :: "string option \<Rightarrow> string \<times> string" where
  "split_address addr =
     (let address = (case addr of None \<Rightarrow> [] | Some a \<Rightarrow> a);
          parts = map js_trim (js_split CHR '','' address);
          city = (if length parts > 1 then parts ! (length parts - 1) else [])
      in (city, []))"

definition get_business_info :: "failures \<Rightarrow> session \<Rightarrow> store \<Rightarrow> response" where
  "get_business_info fails sess s =
     (case sess of
        None \<Rightarrow> not_authenticated
      | Some user \<Rightarrow>
          (case (case fails 0 of
                   Some msg \<Rightarrow> Error msg
                 | None \<Rightarrow> single (filter (\<lambda>b. id_business b = su_id user) (t_business_info s))) of
             Error err \<Rightarrow> Response 500 (ErrorBody ''Database error'')
           | Data None \<Rightarrow> Response 404 (ErrorBody ''Business not found'')
           | Data (Some row) \<Rightarrow>
               (case split_address (address row) of
                  (city, country) \<Rightarrow> Response 200 (BusinessInfo city country))))"

subsection \<open>GET /api/sales/last-year\<close>

definition last_year_row :: "string \<Rightarrow> string \<Rightarrow> menu_item_row \<Rightarrow> js_error + last_year_view" where
  "last_year_row start end' mi =
     (case products mi of
        None \<Rightarrow> Inl TypeError
      | Some prd \<Rightarrow>
          (case categories prd of
             None \<Rightarrow> Inl TypeError
           | Some cat \<Rightarrow>
               (let sub = subcategories prd;
                    total_sold = count_between start end' (sales mi)
                in Inr \<lparr>ly_id_menu_item = id_menu_item mi, ly_id_category = id_category prd,
                        ly_item_name = name prd, ly_producent = brand prd,
                        ly_category = category_name cat, ly_subcategorie = subcat_or_empty sub,
                        ly_price = price mi, ly_created_at = created_at mi,
                        ly_land = production_country prd, ly_stad = production_city prd,
                        ly_total_sold = total_sold, ly_is_trending = is_trending prd,
                        ly_is_high_margin = is_high_margin prd,
                        ly_eco_friendly = eco_friendly prd,
                        ly_season = (case season prd of None \<Rightarrow> ''Unknown'' | Some x \<Rightarrow> x)\<rparr>)))"

text \<open>
  \<open>now_year\<close> is \<open>new Date().getFullYear()\<close>. \<open>stats.sort((a, b) => a.id_menu_item -
  b.id_menu_item)\<close> is a stable sort on the number \<open>id_menu_item\<close>.
\<close>

definition get_sales_last_year :: "int \<Rightarrow> failures \<Rightarrow> session \<Rightarrow> store \<Rightarrow> response" where
  "get_sales_last_year now_year fails sess s =
     (case sess of
        None \<Rightarrow> not_authenticated
      | Some user \<Rightarrow>
          (let lastYear = now_year - 1;
               start = js_string_of_int lastYear @ ''-01-01'';
               end' = js_string_of_int lastYear @ ''-12-31''
           in case store_call fails 0
                     (filter (\<lambda>r. inner_categories r \<and> inner_subcategories r)
                        (map (embed_row s) (eq_business_id s (su_id user)))) of
                Error err \<Rightarrow> Response 500 (ErrorBody ''Database error'')
              | Data mItems \<Rightarrow>
                  (case map_js (last_year_row start end') mItems of
                     Inl err \<Rightarrow> Response 500 (ErrorBody ''Server error'')
                   | Inr stats \<Rightarrow> Response 200 (LastYearStats (sort_key ly_id_menu_item stats)))))"

subsection \<open>GET /api/items-not-on-menu\<close>

definition flatten_product :: "product \<Rightarrow> js_error + catalog_view" where
  "flatten_product p =
     (case categories p of
        None \<Rightarrow> Inl TypeError
      | Some c \<Rightarrow>
          Inr \<lparr>cv_id = id_product p, cv_name = name p, cv_brand = brand p,
               cv_category = category_name c, cv_prodCity = production_city p,
               cv_prodCountry = production_country p, cv_is_trending = is_trending p,
               cv_is_high_margin = is_high_margin p, cv_eco_friendly = eco_friendly p,
               cv_season = season p\<rparr>)"

definition get_items_not_on_menu ::
  "(string \<Rightarrow> 'k::linorder) \<Rightarrow> failures \<Rightarrow> session \<Rightarrow> store \<Rightarrow> response" where
  "get_items_not_on_menu okey fails sess s =
     (case sess of
        None \<Rightarrow> not_authenticated
      | Some user \<Rightarrow>
          (case store_call fails 0 (eq_business_id s (su_id user)) of
             Error miError \<Rightarrow> Response 500 (ErrorBody ''Database error fetching menu items'')
           | Data menuItems \<Rightarrow>
               (let takenIds = map product_id menuItems in
                case (case fails 1 of
                        Some msg \<Rightarrow> Error msg
                      | None \<Rightarrow>
                          select_products_not_in okey
                            (''('' @ js_join '','' (map js_string_of_int takenIds) @ '')'') s) of
                  Error pError \<Rightarrow> Response 500 (ErrorBody ''Database error fetching products'')
                | Data prods \<Rightarrow>
                    (case map_js flatten_product prods of
                       Inl err \<Rightarrow> Response 500 (ErrorBody ''Server error'')
                     | Inr flattened \<Rightarrow> Response 200 (NotOnMenu flattened)))))"

subsection \<open>GET /api/menu-counts\<close>

text \<open>
  \<open>countsMap\<close> starts as \<open>{}\<close>, an object used as a dictionary from category names to
  counts: its own properties are an association list in creation order of the keys, and it
  inherits the members of \<open>Object.prototype\<close>. \<open>inherited_member k\<close> is the text that the
  inherited value of \<open>k\<close> has in a string concatenation: the source text of a method, or
  \<open>[object Object]\<close> for the accessor \<open>__proto__\<close>, whose value is \<open>Object.prototype\<close>.
\<close>

type_synonym js_object = "(string \<times> js_count) list"

definition prototype_methods :: "string list" where
  "prototype_methods =
     [''constructor'', ''__defineGetter__'', ''__defineSetter__'', ''hasOwnProperty'',
      ''__lookupGetter__'', ''__lookupSetter__'', ''isPrototypeOf'', ''propertyIsEnumerable'',
      ''toString'', ''valueOf'', ''toLocaleString'']"

definition inherited_member :: "string \<Rightarrow> string option" where
  "inherited_member k =
     (if k = ''__proto__'' then Some ''[object Object]''
      else if k \<in> set prototype_methods
      then Some (''function '' @ (if k = ''constructor'' then ''Object'' else k)
                 @ ''() { [native code] }'')
      else None)"

text \<open>
  \<open>(acc[cat] || 0) + 1\<close>: an own property wins over an inherited member; a number that is
  not zero and a string that is not empty are truthy, and so is every inherited member;
  \<open>+ 1\<close> adds to a number and appends \<open>1\<close> to a string.
\<close>

definition or_zero_plus_one :: "js_object \<Rightarrow> string \<Rightarrow> js_count" where
  "or_zero_plus_one acc cat =
     (case map_of acc cat of
        Some (Number n) \<Rightarrow> Number (n + 1)
      | Some (JsString s) \<Rightarrow> (if s = [] then Number 1 else JsString (s @ ''1''))
      | None \<Rightarrow>
          (case inherited_member cat of
             None \<Rightarrow> Number 1
           | Some src \<Rightarrow> JsString (src @ ''1'')))"

text \<open>
  \<open>acc[cat] = v\<close>: the setter of \<open>__proto__\<close> ignores a value that is not an object; any
  other key becomes, or stays, an own property.
\<close>

definition assign_property :: "js_object \<Rightarrow> string \<Rightarrow> js_count \<Rightarrow> js_object" where
  "assign_property acc cat v = (if cat = ''__proto__'' then acc else AList.update cat v acc)"

definition count_step :: "js_object \<Rightarrow> menu_item_row \<Rightarrow> js_error + js_object" where
  "count_step acc mi =
     (case products mi of
        None \<Rightarrow> Inl TypeError
      | Some p \<Rightarrow>
          (case categories p of
             None \<Rightarrow> Inl TypeError
           | Some c \<Rightarrow>
               (let cat = category_name c
                in Inr (assign_property acc cat (or_zero_plus_one acc cat)))))"

text \<open>
  \<open>Object.entries\<close> lists the own keys that are array indices first, in ascending numeric
  order, then the other keys in creation order.
\<close>

definition is_array_index :: "string \<Rightarrow> bool" where
  "is_array_index k =
     (k \<noteq> [] \<and> list_all is_digit k \<and> (k = ''0'' \<or> hd k \<noteq> CHR ''0'') \<and>
      digits_value k < 2 ^ 32 - 1)"

definition object_entries :: "js_object \<Rightarrow> (string \<times> js_count) list" where
  "object_entries obj =
     sort_key (\<lambda>kv. digits_value (fst kv)) (filter (\<lambda>kv. is_array_index (fst kv)) obj)
     @ filter (\<lambda>kv. \<not> is_array_index (fst kv)) obj"

text \<open>
  \<open>a.category.localeCompare(b.category)\<close> is the runtime's collation, a consistent
  comparison; it is a parameter: \<open>ckey\<close> maps a string to its place in the collation order,
  and two strings compare as equal exactly when their keys are equal. The sort is stable.
\<close>

definition count_by_category ::
  "(string \<Rightarrow> 'k::linorder) \<Rightarrow> menu_item_row list \<Rightarrow> js_error + category_count list" where
  "count_by_category ckey items =
     (case reduce_js count_step items [] of
        Inl e \<Rightarrow> Inl e
      | Inr countsMap \<Rightarrow>
          Inr (sort_key (\<lambda>r. ckey (cc_category r))
                 (map (\<lambda>(category, count_on_menu).
                         \<lparr>cc_category = category, cc_count_on_menu = count_on_menu\<rparr>)
                    (object_entries countsMap))))"

text \<open>The handler's body from the store's answer on.\<close>

definition menu_counts_body ::
  "(string \<Rightarrow> 'k::linorder) \<Rightarrow> menu_item_row list result \<Rightarrow> response" where
  "menu_counts_body ckey answer =
     (case answer of
        Error err \<Rightarrow> Response 500 (ErrorBody ''Database error'')
      | Data items \<Rightarrow>
          (case count_by_category ckey items of
             Inl err \<Rightarrow> Response 500 (ErrorBody ''Server error'')
           | Inr results \<Rightarrow> Response 200 (MenuCounts results)))"

definition get_menu_counts ::
  "(string \<Rightarrow> 'k::linorder) \<Rightarrow> failures \<Rightarrow> session \<Rightarrow> store \<Rightarrow> response" where
  "get_menu_counts ckey fails sess s =
     (case sess of
        None \<Rightarrow> not_authenticated
      | Some user \<Rightarrow>
          menu_counts_body ckey
            (store_call fails 0
               (filter inner_categories (map (embed_row s) (eq_business_id s (su_id user))))))"

section \<open>Notions used in the statements\<close>

text \<open>
  Window count: the number of sale records of a menu item whose date falls in a calendar
  year.
\<close>

definition sold_in_year :: "store \<Rightarrow> int \<Rightarrow> nat \<Rightarrow> nat" where
  "sold_in_year s menuItemId y =
     length (filter (\<lambda>x. menu_item_id x = menuItemId \<and> year (sold_on x) = y) (t_sales s))"

text \<open>
  The city of an address, in the specification's words: the last comma-separated, trimmed
  component if more than one component exists, else the empty string. An address has more
  than one component when it has a comma, and its last component is what follows the last
  comma.
\<close>

definition city_of_address :: "string \<Rightarrow> string" where
  "city_of_address a =
     (if CHR '','' \<in> set a then js_trim (rev (takeWhile (\<lambda>c. c \<noteq> CHR '','') (rev a))) else [])"

text \<open>
  The category names of the rows that have a product with a category, in row order; one
  step of the count on a category name; the value a name has after \<open>k\<close> steps, a number
  unless the name is inherited; and the element of the result for an entry of \<open>countsMap\<close>.
\<close>

definition category_names :: "menu_item_row list \<Rightarrow> string list" where
  "category_names items =
     concat (map (\<lambda>mi. case products mi of
                          None \<Rightarrow> []
                        | Some p \<Rightarrow> (case categories p of None \<Rightarrow> [] | Some c \<Rightarrow> [category_name c]))
               items)"

definition count_one :: "js_object \<Rightarrow> string \<Rightarrow> js_object" where
  "count_one acc cat = assign_property acc cat (or_zero_plus_one acc cat)"

definition count_value :: "string \<Rightarrow> nat \<Rightarrow> js_count" where
  "count_value c k =
     (case inherited_member c of
        None \<Rightarrow> Number k
      | Some src \<Rightarrow> JsString (src @ replicate k CHR ''1''))"

definition count_row :: "string \<times> js_count \<Rightarrow> category_count" where
  "count_row = (\<lambda>(category, count_on_menu).
                  \<lparr>cc_category = category, cc_count_on_menu = count_on_menu\<rparr>)"

text \<open>
  What a view of GET /api/sales/last-year holds for a menu item and a calendar year: the
  fields of the menu item, its window count for that year, and the fields of its product,
  of the product's category and of its subcategory, the season replaced by \<open>Unknown\<close> when
  the product has none.
\<close>

definition last_year_rel :: "store \<Rightarrow> nat \<Rightarrow> menu_item \<Rightarrow> last_year_view \<Rightarrow> bool" where
  "last_year_rel s y m v =
     (ly_id_menu_item v = id_menu_item m
      \<and> ly_price v = price m \<and> ly_created_at v = created_at m
      \<and> ly_total_sold v = sold_in_year s (id_menu_item m) y
      \<and> (case find (\<lambda>p. id_product p = product_id m) (t_products s) of
            None \<Rightarrow> False
          | Some p \<Rightarrow>
              ly_item_name v = name p \<and> ly_producent v = brand p
              \<and> ly_id_category v = id_category p
              \<and> (case categories p of None \<Rightarrow> False | Some c \<Rightarrow> ly_category v = category_name c)
              \<and> (case subcategories p of
                    None \<Rightarrow> False
                  | Some sc \<Rightarrow> ly_subcategorie v = (case subcat_name sc of None \<Rightarrow> [] | Some n \<Rightarrow> n))
              \<and> ly_is_trending v = is_trending p \<and> ly_is_high_margin v = is_high_margin p
              \<and> ly_eco_friendly v = eco_friendly p \<and> ly_stad v = production_city p
              \<and> ly_land v = production_country p
              \<and> ly_season v = (case season p of None \<Rightarrow> ''Unknown'' | Some x \<Rightarrow> x)))"

text \<open>
  The menu items that the query of GET /api/sales/last-year keeps: those whose product
  exists and has a category and a subcategory.
\<close>

definition has_subcategory :: "store \<Rightarrow> menu_item \<Rightarrow> bool" where
  "has_subcategory s m =
     (case find (\<lambda>p. id_product p = product_id m) (t_products s) of
        None \<Rightarrow> False
      | Some p \<Rightarrow> categories p \<noteq> None \<and> subcategories p \<noteq> None)"

text \<open>
  What an entry of GET /api/items-not-on-menu holds for a product: every selected column
  of the product and the name of its category.
\<close>

definition catalog_rel :: "product \<Rightarrow> catalog_view \<Rightarrow> bool" where
  "catalog_rel p v =
     (cv_id v = id_product p \<and> cv_name v = name p \<and> cv_brand v = brand p
      \<and> (case categories p of None \<Rightarrow> False | Some c \<Rightarrow> cv_category v = category_name c)
      \<and> cv_prodCity v = production_city p \<and> cv_prodCountry v = production_country p
      \<and> cv_is_trending v = is_trending p \<and> cv_is_high_margin v = is_high_margin p
      \<and> cv_eco_friendly v = eco_friendly p \<and> cv_season v = season p)"

section \<open>Example data\<close>

text \<open>
  A small store with two businesses: business 1 owns the menu items 2 and 1, business 2
  owns the menu item 7. It is the concrete input of the instances below.
\<close>

definition ex_products :: "product list" where
  "ex_products =
     [\<lparr>id_product = 10, name = ''Cola'', brand = ''Acme'', id_category = 1,
       production_city = ''Ghent'', production_country = ''Belgium'', is_trending = True,
       is_high_margin = False, eco_friendly = False, season = Some ''Summer'',
       categories = Some \<lparr>category_name = ''Drinks''\<rparr>,
       subcategories = Some \<lparr>subcat_name = Some ''Soda''\<rparr>\<rparr>,
      \<lparr>id_product = 11, name = ''Bread'', brand = ''Bako'', id_category = 2,
       production_city = ''Lyon'', production_country = ''France'', is_trending = False,
       is_high_margin = True, eco_friendly = True, season = None,
       categories = Some \<lparr>category_name = ''Food''\<rparr>,
       subcategories = None\<rparr>]"

definition ex_menu_items :: "menu_item list" where
  "ex_menu_items =
     [\<lparr>id_menu_item = 2, business_id = 1, product_id = 11, price = 3, created_at = ''2024-02-01''\<rparr>,
      \<lparr>id_menu_item = 1, business_id = 1, product_id = 10, price = 5 / 2, created_at = ''2024-01-01''\<rparr>,
      \<lparr>id_menu_item = 7, business_id = 2, product_id = 10, price = 4, created_at = ''2024-03-01''\<rparr>]"

definition ex_sales :: "sale_row list" where
  "ex_sales =
     [\<lparr>menu_item_id = 1, sold_on = \<lparr>year = 2025, month = 1, day = 1\<rparr>\<rparr>,
      \<lparr>menu_item_id = 1, sold_on = \<lparr>year = 2025, month = 12, day = 31\<rparr>\<rparr>,
      \<lparr>menu_item_id = 1, sold_on = \<lparr>year = 2024, month = 6, day = 15\<rparr>\<rparr>,
      \<lparr>menu_item_id = 1, sold_on = \<lparr>year = 2026, month = 1, day = 1\<rparr>\<rparr>,
      \<lparr>menu_item_id = 7, sold_on = \<lparr>year = 2025, month = 3, day = 3\<rparr>\<rparr>]"

definition ex_businesses :: "business list" where
  "ex_businesses =
     [\<lparr>id_business = 1, email = ''a@example.com'', password = Some ''hashA'', horeca_name = ''Cafe A'',
       manager_first_name = ''Ann'', manager_last_name = ''Abel'',
       address = Some ''Main St 5, Springfield''\<rparr>,
      \<lparr>id_business = 2, email = ''b@example.com'', password = Some ''hashB'', horeca_name = ''Bar B'',
       manager_first_name = ''Bob'', manager_last_name = ''Boon'',
       address = Some ''NoCommaHere''\<rparr>]"

definition ex_store :: store where
  "ex_store = \<lparr>t_business_info = ex_businesses, t_products = ex_products,
               t_menu_items = ex_menu_items, t_sales = ex_sales\<rparr>"

definition ex_user :: "int \<Rightarrow> session_user" where
  "ex_user i = \<lparr>su_id = i, su_email = ''u@example.com'', su_horeca_name = ''H'',
               su_manager_first_name = ''F'', su_manager_last_name = ''L''\<rparr>"

definition no_failure :: failures where
  "no_failure = (\<lambda>n. None)"

definition fail_at :: "nat \<Rightarrow> failures" where
  "fail_at k = (\<lambda>n. if n = k then Some ''store error'' else None)"

text \<open>An order key for the examples: strings by their first code unit.\<close>

definition first_code_unit :: "string \<Rightarrow> nat" where
  "first_code_unit s = (case s of [] \<Rightarrow> 0 | c # r \<Rightarrow> Suc (of_char c))"

text \<open>
  A second store: business 2 owns the menu items 8 and 7, both of products with a
  subcategory; the product of menu item 8 has no season.
\<close>

definition ex_tea :: product where
  "ex_tea =
     \<lparr>id_product = 12, name = ''Tea'', brand = ''Leaf'', id_category = 1,
      production_city = ''Kandy'', production_country = ''Sri Lanka'', is_trending = False,
      is_high_margin = True, eco_friendly = True, season = None,
      categories = Some \<lparr>category_name = ''Drinks''\<rparr>,
      subcategories = Some \<lparr>subcat_name = Some ''Hot''\<rparr>\<rparr>"

definition ex_store_tea :: store where
  "ex_store_tea =
     \<lparr>t_business_info = ex_businesses, t_products = ex_products @ [ex_tea],
      t_menu_items =
        [\<lparr>id_menu_item = 8, business_id = 2, product_id = 12, price = 2, created_at = ''2024-04-01''\<rparr>,
         \<lparr>id_menu_item = 7, business_id = 2, product_id = 10, price = 4, created_at = ''2024-03-01''\<rparr>],
      t_sales =
        [\<lparr>menu_item_id = 8, sold_on = \<lparr>year = 2025, month = 3, day = 3\<rparr>\<rparr>,
         \<lparr>menu_item_id = 8, sold_on = \<lparr>year = 2026, month = 12, day = 31\<rparr>\<rparr>,
         \<lparr>menu_item_id = 7, sold_on = \<lparr>year = 2026, month = 1, day = 1\<rparr>\<rparr>]\<rparr>"

text \<open>
  Rows of the menu-counts query with a given category name, and an order key that ignores
  the code unit 173, SOFT HYPHEN, as the default collation of the runtime does: two strings
  that differ only in soft hyphens have the same key.
\<close>

definition ex_row :: "int \<Rightarrow> string \<Rightarrow> menu_item_row" where
  "ex_row i c =
     \<lparr>id_menu_item = i, business_id = 1, product_id = 12, price = 2, created_at = ''2024-04-01'',
      products = Some (ex_tea\<lparr>categories := Some \<lparr>category_name = c\<rparr>\<rparr>), sales = []\<rparr>"

definition soft_hyphen_key :: "string \<Rightarrow> nat" where
  "soft_hyphen_key s =
     foldl (\<lambda>n c. 256 * n + of_char c) 0 (filter (\<lambda>c. (of_char c :: nat) \<noteq> 173) s)"

definition ex_tea_hyphenated :: string where
  "ex_tea_hyphenated = ''Te'' @ [CHR 173] @ ''a''"

section \<open>Properties\<close>

subsection \<open>Digits, string comparison and ISO dates\<close>

lemma of_char_digit_char: "n < 10 \<Longrightarrow> (of_char (digit_char n) :: nat) = 48 + n"
  by (simp add: digit_char_def)

lemma digit_char_eq_iff: "a < 10 \<Longrightarrow> b < 10 \<Longrightarrow> digit_char a = digit_char b \<longleftrightarrow> a = b"
proof
  assume h: "a < 10" "b < 10" and e: "digit_char a = digit_char b"
  have "(of_char (digit_char a) :: nat) = of_char (digit_char b)" by (simp only: e)
  then have "48 + a = 48 + b" by (simp only: of_char_digit_char[OF h(1)] of_char_digit_char[OF h(2)])
  then show "a = b" by simp
qed simp

lemma js_lt_digit_Cons:
  "a < 10 \<Longrightarrow> b < 10 \<Longrightarrow>
   js_lt (digit_char a # s) (digit_char b # t) = (a < b \<or> (a = b \<and> js_lt s t))"
  by (auto simp: digit_char_eq_iff of_char_digit_char)

lemma lex_step:
  fixes d r d' r' :: nat
  assumes "r < m" "r' < m"
  shows "(d * m + r < d' * m + r') = (d < d' \<or> (d = d' \<and> r < r'))"
proof (cases "d < d'")
  case True
  then have "Suc d \<le> d'" by simp
  then have "Suc d * m \<le> d' * m" by (rule mult_le_mono1)
  with assms True show ?thesis by simp
next
  case False
  show ?thesis
  proof (cases "d = d'")
    case True
    then show ?thesis by simp
  next
    case F: False
    with False have "Suc d' \<le> d" by simp
    then have "Suc d' * m \<le> d * m" by (rule mult_le_mono1)
    with assms False F show ?thesis by simp
  qed
qed


lemma lt_div_mod10:
  fixes x y :: nat
  shows "(x < y) = (x div 10 < y div 10 \<or> (x div 10 = y div 10 \<and> x mod 10 < y mod 10))"
proof -
  have "(x div 10 * 10 + x mod 10 < y div 10 * 10 + y mod 10)
        = (x div 10 < y div 10 \<or> (x div 10 = y div 10 \<and> x mod 10 < y mod 10))"
    by (rule lex_step) simp_all
  then show ?thesis by simp
qed

lemma eq_div_mod10:
  fixes x y :: nat
  shows "(x = y) = (x div 10 = y div 10 \<and> x mod 10 = y mod 10)"
  by (metis div_mult_mod_eq)

lemma js_lt_pad2:
  assumes "x \<le> 99" "y \<le> 99"
  shows "js_lt (pad2 x @ s) (pad2 y @ t) = (x < y \<or> (x = y \<and> js_lt s t))"
proof -
  have dx: "x div 10 mod 10 = x div 10" and dy: "y div 10 mod 10 = y div 10"
    using assms by simp_all
  have "js_lt (pad2 x @ s) (pad2 y @ t) =
        (x div 10 < y div 10 \<or> (x div 10 = y div 10 \<and>
          (x mod 10 < y mod 10 \<or> (x mod 10 = y mod 10 \<and> js_lt s t))))"
  proof -
    have "x div 10 < 10" "y div 10 < 10" using assms by simp_all
    then show ?thesis
      by (simp add: pad2_def dx dy js_lt_digit_Cons del: js_lt.simps)
  qed
  also have "\<dots> = (x < y \<or> (x = y \<and> js_lt s t))"
    using lt_div_mod10[of x y] eq_div_mod10[of x y] by blast
  finally show ?thesis .
qed

lemma js_lt_pad4:
  assumes "x \<le> 9999" "y \<le> 9999"
  shows "js_lt (pad4 x @ s) (pad4 y @ t) = (x < y \<or> (x = y \<and> js_lt s t))"
proof -
  have dx: "x div 1000 mod 10 = x div 1000" and dy: "y div 1000 mod 10 = y div 1000"
    using assms by simp_all
  have x2: "x div 100 mod 10 = x div 10 div 10 mod 10" "x div 1000 = x div 10 div 10 div 10"
    and y2: "y div 100 mod 10 = y div 10 div 10 mod 10" "y div 1000 = y div 10 div 10 div 10"
    by (simp_all add: div_mult2_eq[symmetric])
  have "js_lt (pad4 x @ s) (pad4 y @ t) =
        (x div 1000 < y div 1000 \<or> (x div 1000 = y div 1000 \<and>
         (x div 100 mod 10 < y div 100 mod 10 \<or> (x div 100 mod 10 = y div 100 mod 10 \<and>
          (x div 10 mod 10 < y div 10 mod 10 \<or> (x div 10 mod 10 = y div 10 mod 10 \<and>
           (x mod 10 < y mod 10 \<or> (x mod 10 = y mod 10 \<and> js_lt s t))))))))"
  proof -
    have "x div 1000 < 10" "y div 1000 < 10" using assms by simp_all
    then show ?thesis
      by (simp add: pad4_def dx dy js_lt_digit_Cons del: js_lt.simps)
  qed
  also have "\<dots> = (x < y \<or> (x = y \<and> js_lt s t))"
    unfolding x2 y2
    using lt_div_mod10[of x y] eq_div_mod10[of x y]
          lt_div_mod10[of "x div 10" "y div 10"] eq_div_mod10[of "x div 10" "y div 10"]
          lt_div_mod10[of "x div 10 div 10" "y div 10 div 10"]
          eq_div_mod10[of "x div 10 div 10" "y div 10 div 10"]
    by blast
  finally show ?thesis .
qed


lemma js_lt_dash: "js_lt (CHR ''-'' # s) (CHR ''-'' # t) = js_lt s t"
  by simp

lemma js_lt_month_day:
  assumes "a \<le> 99" "b \<le> 99" "a' \<le> 99" "b' \<le> 99"
  shows "js_lt (''-'' @ pad2 a @ ''-'' @ pad2 b) (''-'' @ pad2 a' @ ''-'' @ pad2 b')
         = (a < a' \<or> (a = a' \<and> b < b'))"
proof -
  have "js_lt (pad2 b @ []) (pad2 b' @ []) = (b < b')"
    using assms by (simp only: js_lt_pad2 js_lt.simps) simp
  then have "js_lt (pad2 b) (pad2 b') = (b < b')" by simp
  then have "js_lt (pad2 a @ CHR ''-'' # pad2 b) (pad2 a' @ CHR ''-'' # pad2 b')
          = (a < a' \<or> (a = a' \<and> b < b'))"
    using assms by (simp only: js_lt_pad2 js_lt_dash)
  then show ?thesis by (simp del: js_lt.simps add: js_lt_dash)
qed

lemma digit_char_is:
  assumes "n < 10" "(of_char c :: nat) = 48 + n"
  shows "digit_char n = c"
proof -
  have "(of_char (digit_char n) :: nat) = of_char c"
    using assms by (simp add: of_char_digit_char)
  then show ?thesis by (simp only: of_char_eq_iff)
qed

lemma digit_char_numerals:
  "digit_char 0 = CHR ''0''" "digit_char 1 = CHR ''1''" "digit_char 2 = CHR ''2''"
  "digit_char 3 = CHR ''3''" "digit_char 4 = CHR ''4''" "digit_char 5 = CHR ''5''"
  "digit_char 6 = CHR ''6''" "digit_char 7 = CHR ''7''" "digit_char 8 = CHR ''8''"
  "digit_char 9 = CHR ''9''" "digit_char (Suc 0) = CHR ''1''"
  by (rule digit_char_is; simp)+

lemma first_of_january: "''-01-01'' = ''-'' @ pad2 1 @ ''-'' @ pad2 1"
  by (simp add: pad2_def digit_char_numerals)

lemma last_of_december: "''-12-31'' = ''-'' @ pad2 12 @ ''-'' @ pad2 31"
  by (simp add: pad2_def digit_char_numerals)

lemma iso_date_in_year:
  assumes "valid_date d" "Y \<le> 9999"
  shows "(js_ge (iso_date d) (pad4 Y @ ''-01-01'') \<and> js_le (iso_date d) (pad4 Y @ ''-12-31''))
         = (year d = Y)"
proof -
  from assms(1) have y: "year d \<le> 9999" and m: "1 \<le> month d" "month d \<le> 12"
    and dd: "1 \<le> day d" "day d \<le> 31"
    by (simp_all add: valid_date_def)
  have lo: "js_lt (iso_date d) (pad4 Y @ ''-01-01'') = (year d < Y)"
    unfolding iso_date_def first_of_january
    using y assms(2) m dd by (simp only: js_lt_pad4 js_lt_month_day) auto
  have hi: "js_lt (pad4 Y @ ''-12-31'') (iso_date d) = (Y < year d)"
    unfolding iso_date_def last_of_december
    using y assms(2) m dd by (simp only: js_lt_pad4 js_lt_month_day) auto
  show ?thesis unfolding js_ge_def js_le_def lo hi by auto
qed

lemma digits_lt10: "n < 10 \<Longrightarrow> digits n = [digit_char n]"
  by (subst digits.simps) simp

lemma digits_ge10: "10 \<le> n \<Longrightarrow> digits n = digits (n div 10) @ [digit_char (n mod 10)]"
  by (subst digits.simps) simp

lemma digits_4: "1000 \<le> n \<Longrightarrow> n \<le> 9999 \<Longrightarrow> digits n = pad4 n"
proof -
  assume h: "1000 \<le> n" "n \<le> 9999"
  have e: "n div 10 div 10 = n div 100" "n div 100 div 10 = n div 1000"
    by (simp_all add: div_mult2_eq[symmetric])
  have r: "10 \<le> n" "10 \<le> n div 10" "10 \<le> n div 100" "n div 1000 < 10"
    using h by simp_all
  have f: "n div 1000 mod 10 = n div 1000" using h by simp
  have "digits n = digits (n div 10) @ [digit_char (n mod 10)]"
    by (rule digits_ge10[OF r(1)])
  also have "digits (n div 10) = digits (n div 100) @ [digit_char (n div 10 mod 10)]"
    using digits_ge10[OF r(2)] by (simp only: e)
  also have "digits (n div 100) = digits (n div 1000) @ [digit_char (n div 100 mod 10)]"
    using digits_ge10[OF r(3)] by (simp only: e)
  also have "digits (n div 1000) = [digit_char (n div 1000)]"
    by (rule digits_lt10[OF r(4)])
  finally show ?thesis by (simp add: pad4_def f)
qed

lemma js_string_of_year:
  "1000 \<le> y \<Longrightarrow> y \<le> 9999 \<Longrightarrow> js_string_of_int y = pad4 (nat y)"
  by (simp add: js_string_of_int_def digits_4)

lemma lit2025: "''2025'' = pad4 2025" and lit2024: "''2024'' = pad4 2024"
  by (simp_all add: pad4_def digit_char_numerals)

subsection \<open>Splitting at a separator\<close>

lemma js_split_nonempty: "js_split c a \<noteq> []"
  by (induction a) (auto split: list.splits)

lemma length_js_split: "length (js_split c a) = Suc (length (filter (\<lambda>x. x = c) a))"
  by (induction a) (auto split: list.splits simp: js_split_nonempty)

lemma js_split_no_sep: "c \<notin> set a \<Longrightarrow> js_split c a = [a]"
  by (induction a) auto

lemma takeWhile_snoc_stop: "\<not> P c \<Longrightarrow> takeWhile P (ys @ [c]) = takeWhile P ys"
  by (induction ys) auto

lemma takeWhile_snoc_go:
  "P x \<Longrightarrow> takeWhile P (ys @ [x]) = (if \<forall>y\<in>set ys. P y then ys @ [x] else takeWhile P ys)"
  by (induction ys) auto

lemma last_js_split: "last (js_split c a) = rev (takeWhile (\<lambda>x. x \<noteq> c) (rev a))"
proof (induction a)
  case Nil
  show ?case by simp
next
  case (Cons x xs)
  show ?case
  proof (cases "x = c")
    case True
    then show ?thesis using Cons js_split_nonempty[of c xs]
      by (simp add: takeWhile_snoc_stop)
  next
    case False
    show ?thesis
    proof (cases "c \<in> set xs")
      case True
      then have "length (js_split c xs) \<ge> 2"
        by (simp add: length_js_split filter_empty_conv Suc_le_eq)
      then obtain p q ps where "js_split c xs = p # q # ps"
        by (cases "js_split c xs"; cases "tl (js_split c xs)") auto
      with Cons False True show ?thesis
        by (auto simp: takeWhile_snoc_go)
    next
      case F: False
      with False show ?thesis
        by (simp add: js_split_no_sep takeWhile_snoc_go)
    qed
  qed
qed

subsection \<open>The update loop of PATCH /api/menu-items\<close>

lemma update_loop_all_ok:
  "(\<forall>i<length us. fails (n + i) = None) \<Longrightarrow>
   update_loop fails n bid us s = (False, foldl (\<lambda>s u. update_price bid u s) s us)"
proof (induction us arbitrary: n s)
  case Nil
  show ?case by simp
next
  case (Cons u us)
  from Cons.prems have h0: "fails n = None"
    by (metis add.right_neutral length_greater_0_conv list.distinct(1))
  have "\<forall>i<length us. fails (Suc n + i) = None"
  proof (intro allI impI)
    fix i assume "i < length us"
    then have "Suc i < length (u # us)" by simp
    with Cons.prems have "fails (n + Suc i) = None" by blast
    then show "fails (Suc n + i) = None" by simp
  qed
  from Cons.IH[OF this] h0 show ?case by simp
qed

lemma update_loop_first_failure:
  "k < length us \<Longrightarrow> (\<forall>i<k. fails (n + i) = None) \<Longrightarrow> fails (n + k) \<noteq> None \<Longrightarrow>
   update_loop fails n bid us s = (True, foldl (\<lambda>s u. update_price bid u s) s (take k us))"
proof (induction us arbitrary: n k s)
  case Nil
  then show ?case by simp
next
  case (Cons u us)
  show ?case
  proof (cases k)
    case 0
    with Cons.prems show ?thesis by (auto split: option.splits)
  next
    case (Suc j)
    with Cons.prems have h0: "fails n = None" by (metis add.right_neutral zero_less_Suc)
    have a: "j < length us" using Cons.prems Suc by simp
    have b: "\<forall>i<j. fails (Suc n + i) = None"
    proof (intro allI impI)
      fix i assume "i < j"
      then have "Suc i < k" using Suc by simp
      with Cons.prems have "fails (n + Suc i) = None" by blast
      then show "fails (Suc n + i) = None" by simp
    qed
    have c: "fails (Suc n + j) \<noteq> None" using Cons.prems Suc by simp
    from Cons.IH[OF a b c] h0 Suc show ?thesis by simp
  qed
qed

text \<open>
  Claim C5. PATCH /api/menu-items answers 400 and leaves the store as it is when \<open>updates\<close>
  is not an array. When it is an array, the updates are store calls in input order: if the
  call for the element at index \<open>k\<close> is the first to fail, the store holds exactly the first
  \<open>k\<close> updates, applied in order and not rolled back, and the answer is the one fixed 500
  body, the same for every \<open>k\<close>.
\<close>

theorem patch_menu_items_not_transactional:
  "patch_menu_items fails (Some user) NotArray s = (Response 400 (ErrorBody ''Invalid payload''), s)
   \<and> (k < length us \<and> (\<forall>i<k. fails i = None) \<and> fails k \<noteq> None \<longrightarrow>
        patch_menu_items fails (Some user) (Array us) s =
          (Response 500 (ErrorBody ''Failed updating prices''),
           foldl (\<lambda>s u. update_price (su_id user) u s) s (take k us)))"
proof (intro conjI impI)
  show "patch_menu_items fails (Some user) NotArray s =
          (Response 400 (ErrorBody ''Invalid payload''), s)"
    by (simp add: patch_menu_items_def)
next
  assume h: "k < length us \<and> (\<forall>i<k. fails i = None) \<and> fails k \<noteq> None"
  then have "update_loop fails 0 (su_id user) us s =
               (True, foldl (\<lambda>s u. update_price (su_id user) u s) s (take k us))"
    using update_loop_first_failure[of k us fails 0 "su_id user" s] by simp
  then show "patch_menu_items fails (Some user) (Array us) s =
          (Response 500 (ErrorBody ''Failed updating prices''),
           foldl (\<lambda>s u. update_price (su_id user) u s) s (take k us))"
    by (simp add: patch_menu_items_def)
qed

theorem patch_menu_items_not_transactional_witness:
  "patch_menu_items (fail_at 1) (Some (ex_user 1))
     (Array [\<lparr>u_id_menu_item = 1, u_price = 9\<rparr>, \<lparr>u_id_menu_item = 2, u_price = 8\<rparr>]) ex_store =
   (Response 500 (ErrorBody ''Failed updating prices''),
    update_price 1 \<lparr>u_id_menu_item = 1, u_price = 9\<rparr> ex_store)
   \<and> map price (t_menu_items (update_price 1 \<lparr>u_id_menu_item = 1, u_price = 9\<rparr> ex_store))
       = [3, 9, 4]"
proof -
  have h: "(1::nat) < length [\<lparr>u_id_menu_item = 1, u_price = 9\<rparr>, \<lparr>u_id_menu_item = 2, u_price = 8\<rparr>]
           \<and> (\<forall>i<1. fail_at 1 i = None) \<and> fail_at 1 1 \<noteq> None"
    by (simp add: fail_at_def)
  have "map price (t_menu_items (update_price 1 \<lparr>u_id_menu_item = 1, u_price = 9\<rparr> ex_store))
          = [3, 9, 4]"
    by (simp add: update_price_def match_item_def ex_store_def ex_menu_items_def)
  with patch_menu_items_not_transactional[of "fail_at 1" "ex_user 1" ex_store 1
         "[\<lparr>u_id_menu_item = 1, u_price = 9\<rparr>, \<lparr>u_id_menu_item = 2, u_price = 8\<rparr>]"] h
  show ?thesis by (simp add: ex_user_def)
qed

subsection \<open>GET /api/sales\<close>

lemma map_js_all:
  "(\<forall>x\<in>set xs. \<exists>y. f x = Inr y) \<Longrightarrow>
   \<exists>ys. map_js f xs = Inr ys \<and> list_all2 (\<lambda>x y. f x = Inr y) xs ys"
proof (induction xs)
  case Nil
  show ?case by simp
next
  case (Cons x xs)
  then obtain y where y: "f x = Inr y" by auto
  from Cons obtain ys where ys: "map_js f xs = Inr ys" "list_all2 (\<lambda>x y. f x = Inr y) xs ys"
    by auto
  from y ys show ?case by simp
qed

lemma count_between_iso:
  assumes "\<forall>x\<in>set rows. valid_date (sold_on x)" "Y \<le> 9999"
  shows "count_between (pad4 Y @ ''-01-01'') (pad4 Y @ ''-12-31'')
           (map (\<lambda>x. \<lparr>sold_at = iso_date (sold_on x)\<rparr>) rows)
         = length (filter (\<lambda>x. year (sold_on x) = Y) rows)"
  using assms(1)
proof (induction rows)
  case Nil
  show ?case by (simp add: count_between_def)
next
  case (Cons r rows)
  then have v: "valid_date (sold_on r)" by simp
  from Cons have "count_between (pad4 Y @ ''-01-01'') (pad4 Y @ ''-12-31'')
           (map (\<lambda>x. \<lparr>sold_at = iso_date (sold_on x)\<rparr>) rows)
         = length (filter (\<lambda>x. year (sold_on x) = Y) rows)" by simp
  then show ?case
    using iso_date_in_year[OF v assms(2)] by (simp add: count_between_def)
qed

lemma sales_of_embed_row:
  assumes "\<forall>x\<in>set (t_sales s). valid_date (sold_on x)" "Y \<le> 9999"
  shows "count_between (pad4 Y @ ''-01-01'') (pad4 Y @ ''-12-31'') (sales (embed_row s m))
         = sold_in_year s (id_menu_item m) Y"
proof -
  have "\<forall>x\<in>set (filter (\<lambda>x. menu_item_id x = id_menu_item m) (t_sales s)). valid_date (sold_on x)"
    using assms(1) by simp
  from count_between_iso[OF this assms(2)] show ?thesis
    by (simp add: embed_row_def sold_in_year_def conj_commute)
qed

lemma sales_stats_row_embed:
  assumes "\<forall>x\<in>set (t_sales s). valid_date (sold_on x)" "inner_categories (embed_row s m)"
  shows "\<exists>v. sales_stats_row (embed_row s m) = Inr v
           \<and> sv_id_menu_item v = id_menu_item m
           \<and> sv_total_sold v = sold_in_year s (id_menu_item m) 2025
           \<and> sv_last_year_sold v = sold_in_year s (id_menu_item m) 2024"
proof -
  from assms(2) obtain p c where p: "products (embed_row s m) = Some p" "categories p = Some c"
    by (auto simp: inner_categories_def split: option.splits)
  have a: "count_between ''2025-01-01'' ''2025-12-31'' (sales (embed_row s m))
             = sold_in_year s (id_menu_item m) 2025"
    using sales_of_embed_row[OF assms(1), of 2025 m] by (simp add: lit2025[symmetric])
  have b: "count_between ''2024-01-01'' ''2024-12-31'' (sales (embed_row s m))
             = sold_in_year s (id_menu_item m) 2024"
    using sales_of_embed_row[OF assms(1), of 2024 m] by (simp add: lit2024[symmetric])
  have i: "id_menu_item (embed_row s m) = id_menu_item m" by (simp add: embed_row_def)
  show ?thesis using p a b i by (simp add: sales_stats_row_def)
qed

lemma boundary_dates_counted:
  "count_between ''2025-01-01'' ''2025-12-31''
     (map (\<lambda>d. \<lparr>sold_at = iso_date d\<rparr>)
        [\<lparr>year = 2025, month = 1, day = 1\<rparr>, \<lparr>year = 2025, month = 12, day = 31\<rparr>,
         \<lparr>year = 2024, month = 12, day = 31\<rparr>, \<lparr>year = 2026, month = 1, day = 1\<rparr>]) = 2"
  by (simp add: count_between_def iso_date_def pad4_def pad2_def digit_char_numerals js_ge_def js_le_def)

text \<open>
  Claim C6. GET /api/sales answers, for every menu item of the session's business, in the
  store's row order, \<open>total_sold\<close> as the number of the item's sales dated in the calendar
  year 2025 and \<open>last_year_sold\<close> as the number dated in 2024. The two years are constants
  of the handler, which takes no current date. Sales dated on the first of January and
  on the last of December of 2025 are counted, those of the days just outside are not.
  The store is taken to answer (\<open>fails 0 = None\<close>), to hold valid dates, and every menu item
  of the business to have a product with a category.
\<close>

theorem get_sales_fixed_windows:
  assumes "fails 0 = None"
    and "\<forall>x\<in>set (t_sales s). valid_date (sold_on x)"
    and "\<forall>m\<in>set (eq_business_id s (su_id user)). inner_categories (embed_row s m)"
  shows "(\<exists>stats. get_sales fails (Some user) s = Response 200 (SalesStats stats)
           \<and> list_all2 (\<lambda>m v. sv_id_menu_item v = id_menu_item m
                             \<and> sv_total_sold v = sold_in_year s (id_menu_item m) 2025
                             \<and> sv_last_year_sold v = sold_in_year s (id_menu_item m) 2024)
                 (eq_business_id s (su_id user)) stats)
         \<and> count_between ''2025-01-01'' ''2025-12-31''
               (map (\<lambda>d. \<lparr>sold_at = iso_date d\<rparr>)
                  [\<lparr>year = 2025, month = 1, day = 1\<rparr>, \<lparr>year = 2025, month = 12, day = 31\<rparr>,
                   \<lparr>year = 2024, month = 12, day = 31\<rparr>, \<lparr>year = 2026, month = 1, day = 1\<rparr>]) = 2"
proof -
  let ?items = "eq_business_id s (su_id user)"
  have rows: "filter inner_categories (map (embed_row s) ?items) = map (embed_row s) ?items"
    using assms(3) by (simp add: filter_id_conv)
  have "\<forall>r\<in>set (map (embed_row s) ?items). \<exists>v. sales_stats_row r = Inr v"
    using sales_stats_row_embed[OF assms(2)] assms(3) by auto
  from map_js_all[OF this] obtain stats where
    st: "map_js sales_stats_row (map (embed_row s) ?items) = Inr stats"
        "list_all2 (\<lambda>r v. sales_stats_row r = Inr v) (map (embed_row s) ?items) stats"
    by blast
  from st(2) have "list_all2 (\<lambda>m v. sales_stats_row (embed_row s m) = Inr v) ?items stats"
    by (simp add: list_all2_map1)
  then have "list_all2 (\<lambda>m v. sv_id_menu_item v = id_menu_item m
                             \<and> sv_total_sold v = sold_in_year s (id_menu_item m) 2025
                             \<and> sv_last_year_sold v = sold_in_year s (id_menu_item m) 2024)
                 ?items stats"
  proof (rule list.rel_mono_strong)
    fix m v assume "m \<in> set ?items"
    moreover assume "sales_stats_row (embed_row s m) = Inr v"
    ultimately show "sv_id_menu_item v = id_menu_item m
                             \<and> sv_total_sold v = sold_in_year s (id_menu_item m) 2025
                             \<and> sv_last_year_sold v = sold_in_year s (id_menu_item m) 2024"
      using sales_stats_row_embed[OF assms(2), of m] assms(3) by auto
  qed
  moreover have "get_sales fails (Some user) s = Response 200 (SalesStats stats)"
    using assms(1) rows st(1) by (simp add: get_sales_def store_call_def)
  ultimately have "\<exists>stats. get_sales fails (Some user) s = Response 200 (SalesStats stats)
           \<and> list_all2 (\<lambda>m v. sv_id_menu_item v = id_menu_item m
                             \<and> sv_total_sold v = sold_in_year s (id_menu_item m) 2025
                             \<and> sv_last_year_sold v = sold_in_year s (id_menu_item m) 2024)
                 (eq_business_id s (su_id user)) stats"
    by (intro exI[of _ stats]) simp
  with boundary_dates_counted show ?thesis by simp
qed


theorem get_sales_fixed_windows_witness:
  "\<exists>stats. get_sales no_failure (Some (ex_user 1)) ex_store = Response 200 (SalesStats stats)
     \<and> map sv_id_menu_item stats = [2, 1]
     \<and> map sv_total_sold stats = [0, 2]
     \<and> map sv_last_year_sold stats = [0, 1]"
proof -
  have f: "no_failure 0 = None" by (simp add: no_failure_def)
  have v: "\<forall>x\<in>set (t_sales ex_store). valid_date (sold_on x)"
    by (simp add: ex_store_def ex_sales_def valid_date_def)
  have items: "eq_business_id ex_store (su_id (ex_user 1)) = [ex_menu_items ! 0, ex_menu_items ! 1]"
    by (simp add: eq_business_id_def ex_store_def ex_menu_items_def ex_user_def)
  have j: "\<forall>m\<in>set (eq_business_id ex_store (su_id (ex_user 1))). inner_categories (embed_row ex_store m)"
    unfolding items
    by (simp add: inner_categories_def embed_row_def ex_store_def ex_menu_items_def ex_products_def)
  from get_sales_fixed_windows[where fails = no_failure and s = ex_store and user = "ex_user 1", OF f v j, THEN conjunct1] obtain stats where
    r: "get_sales no_failure (Some (ex_user 1)) ex_store = Response 200 (SalesStats stats)"
    and l: "list_all2 (\<lambda>m v. sv_id_menu_item v = id_menu_item m
                 \<and> sv_total_sold v = sold_in_year ex_store (id_menu_item m) 2025
                 \<and> sv_last_year_sold v = sold_in_year ex_store (id_menu_item m) 2024)
              (eq_business_id ex_store (su_id (ex_user 1))) stats"
    by blast
  have c: "sold_in_year ex_store 2 2025 = 0" "sold_in_year ex_store 1 2025 = 2"
          "sold_in_year ex_store 2 2024 = 0" "sold_in_year ex_store 1 2024 = 1"
    by (simp_all add: sold_in_year_def ex_store_def ex_sales_def)
  from l have "map sv_id_menu_item stats = [2, 1] \<and> map sv_total_sold stats = [0, 2]
     \<and> map sv_last_year_sold stats = [0, 1]"
    unfolding items by (auto simp: list_all2_Cons1 ex_menu_items_def c)
  with r show ?thesis by (intro exI[of _ stats]) simp
qed

subsection \<open>The flattened subcategory\<close>

text \<open>
  Claim C7. For a menu item row whose product and category are present, the flattened view
  of GET /api/menu-items and the view of GET /api/sales are produced without error, and
  their \<open>subcategory\<close> is a string: the empty string when the product has no subcategory
  relation (and when the relation has no name), the subcategory's name otherwise.
\<close>

theorem subcategory_defaults_to_empty:
  assumes "products mi = Some p" and "categories p = Some c"
  shows "\<exists>v w. flatten_menu_item mi = Inr v \<and> sales_stats_row mi = Inr w
           \<and> (subcategories p = None \<longrightarrow> mv_subcategory v = [] \<and> sv_subcategory w = [])
           \<and> (\<forall>n. subcategories p = Some \<lparr>subcat_name = Some n\<rparr> \<longrightarrow>
                  mv_subcategory v = n \<and> sv_subcategory w = n)
           \<and> (subcategories p = Some \<lparr>subcat_name = None\<rparr> \<longrightarrow>
                  mv_subcategory v = [] \<and> sv_subcategory w = [])"
  using assms
  by (simp add: flatten_menu_item_def sales_stats_row_def subcat_or_empty_def)

theorem subcategory_defaults_to_empty_witness:
  "\<exists>v w. flatten_menu_item (embed_row ex_store (ex_menu_items ! 0)) = Inr v
        \<and> sales_stats_row (embed_row ex_store (ex_menu_items ! 0)) = Inr w
        \<and> mv_subcategory v = [] \<and> sv_subcategory w = []"
proof -
  have p: "products (embed_row ex_store (ex_menu_items ! 0)) = Some (ex_products ! 1)"
    by (simp add: embed_row_def ex_store_def ex_menu_items_def ex_products_def)
  have c: "categories (ex_products ! 1) = Some \<lparr>category_name = ''Food''\<rparr>"
    and n: "subcategories (ex_products ! 1) = None"
    by (simp_all add: ex_products_def)
  from subcategory_defaults_to_empty[OF p c] n show ?thesis by auto
qed

subsection \<open>GET /api/business-info\<close>

lemma split_address_city:
  "split_address (Some a) = (city_of_address a, [])"
proof (cases "CHR '','' \<in> set a")
  case True
  then have l: "length (js_split CHR '','' a) > 1"
    by (simp add: length_js_split filter_empty_conv)
  have "map js_trim (js_split CHR '','' a) ! (length (js_split CHR '','' a) - 1)
        = js_trim (last (js_split CHR '','' a))"
    using js_split_nonempty[of "CHR '',''" a] by (simp add: last_conv_nth)
  with l True show ?thesis
    by (simp add: split_address_def city_of_address_def last_js_split Let_def)
next
  case False
  then show ?thesis
    by (simp add: split_address_def city_of_address_def js_split_no_sep)
qed

text \<open>
  Claim C9. GET /api/business-info answers the city of the business's address as the
  specification words it, the trimmed text after the last comma when the address has a
  comma and the empty string otherwise (also for an address that is \<open>null\<close>), and the
  country as the empty string. \<open>Main St 5, Springfield\<close> gives \<open>Springfield\<close>,
  \<open>NoCommaHere\<close> gives the empty string.
\<close>

theorem business_info_city:
  assumes "fails 0 = None"
    and "filter (\<lambda>b. id_business b = su_id user) (t_business_info s) = [row]"
  shows "get_business_info fails (Some user) s =
           Response 200 (BusinessInfo (case address row of None \<Rightarrow> [] | Some a \<Rightarrow> city_of_address a) [])
         \<and> city_of_address ''Main St 5, Springfield'' = ''Springfield''
         \<and> city_of_address ''NoCommaHere'' = []"
proof -
  have "split_address (address row) = ((case address row of None \<Rightarrow> [] | Some a \<Rightarrow> city_of_address a), [])"
  proof (cases "address row")
    case None
    then show ?thesis by (simp add: split_address_def)
  next
    case (Some a)
    then show ?thesis by (simp add: split_address_city)
  qed
  then have "get_business_info fails (Some user) s =
           Response 200 (BusinessInfo (case address row of None \<Rightarrow> [] | Some a \<Rightarrow> city_of_address a) [])"
    using assms by (simp add: get_business_info_def single_def)
  moreover have "city_of_address ''Main St 5, Springfield'' = ''Springfield''"
    by (simp add: city_of_address_def js_trim_def is_js_space_def)
  moreover have "city_of_address ''NoCommaHere'' = []"
    by (simp add: city_of_address_def)
  ultimately show ?thesis by simp
qed

theorem business_info_city_witness:
  "get_business_info no_failure (Some (ex_user 1)) ex_store
     = Response 200 (BusinessInfo ''Springfield'' [])
   \<and> get_business_info no_failure (Some (ex_user 2)) ex_store
     = Response 200 (BusinessInfo [] [])"
proof -
  have f: "no_failure 0 = None" by (simp add: no_failure_def)
  have a: "filter (\<lambda>b. id_business b = su_id (ex_user 1)) (t_business_info ex_store) = [ex_businesses ! 0]"
    and b: "filter (\<lambda>b. id_business b = su_id (ex_user 2)) (t_business_info ex_store) = [ex_businesses ! 1]"
    by (simp_all add: ex_store_def ex_businesses_def ex_user_def)
  from business_info_city[where fails = no_failure, OF f a] business_info_city[where fails = no_failure, OF f b]
  show ?thesis by (simp add: ex_businesses_def)
qed

subsection \<open>DELETE /api/menu-items/:id\<close>

text \<open>
  Claim C1. The sales of a menu item are deleted by \<open>menu_item_id\<close> alone, before the
  ownership of the menu item is looked at: in the example store, the request of business 1
  to delete menu item 7, which business 2 owns, deletes the sale of menu item 7. The claim
  that no sale of another business can be deleted fails on the code at this input.
\<close>

theorem delete_removes_foreign_sales:
  "business_id (ex_menu_items ! 2) = 2 \<and> id_menu_item (ex_menu_items ! 2) = 7
   \<and> su_id (ex_user 1) = 1
   \<and> map menu_item_id (t_sales ex_store) = [1, 1, 1, 1, 7]
   \<and> map menu_item_id (t_sales (snd (delete_menu_items_id no_failure (Some (ex_user 1)) 7 ex_store)))
       = [1, 1, 1, 1]"
  by (simp add: delete_menu_items_id_def delete_sales_def delete_menu_item_def match_item_def
        no_failure_def ex_store_def ex_menu_items_def ex_sales_def ex_user_def)

text \<open>
  Claim C2. The same request is answered 404 and leaves the \<open>menu_items\<close> table as it was,
  but the store is not unchanged: the sales table has lost the row of menu item 7.
\<close>

theorem delete_not_owned_changes_state:
  "fst (delete_menu_items_id no_failure (Some (ex_user 1)) 7 ex_store)
     = Response 404 (ErrorBody ''Item not found or no rights'')
   \<and> t_menu_items (snd (delete_menu_items_id no_failure (Some (ex_user 1)) 7 ex_store))
       = t_menu_items ex_store
   \<and> length (t_sales ex_store) = 5
   \<and> length (t_sales (snd (delete_menu_items_id no_failure (Some (ex_user 1)) 7 ex_store))) = 4
   \<and> snd (delete_menu_items_id no_failure (Some (ex_user 1)) 7 ex_store) \<noteq> ex_store"
proof -
  have a: "delete_menu_items_id no_failure (Some (ex_user 1)) 7 ex_store
        = (Response 404 (ErrorBody ''Item not found or no rights''),
           ex_store\<lparr>t_sales := filter (\<lambda>x. menu_item_id x \<noteq> 7) ex_sales\<rparr>)"
    by (simp add: delete_menu_items_id_def delete_sales_def delete_menu_item_def match_item_def
        no_failure_def ex_store_def ex_menu_items_def ex_user_def)
  have b: "length (filter (\<lambda>x. menu_item_id x \<noteq> 7) ex_sales) = 4" "length ex_sales = 5"
    by (simp_all add: ex_sales_def)
  have c: "t_sales ex_store = ex_sales" by (simp add: ex_store_def)
  have "ex_store\<lparr>t_sales := filter (\<lambda>x. menu_item_id x \<noteq> 7) ex_sales\<rparr> \<noteq> ex_store"
  proof
    assume "ex_store\<lparr>t_sales := filter (\<lambda>x. menu_item_id x \<noteq> 7) ex_sales\<rparr> = ex_store"
    then have "t_sales (ex_store\<lparr>t_sales := filter (\<lambda>x. menu_item_id x \<noteq> 7) ex_sales\<rparr>) = t_sales ex_store"
      by simp
    then have "length (filter (\<lambda>x. menu_item_id x \<noteq> 7) ex_sales) = length ex_sales"
      by (simp add: c)
    with b show False by simp
  qed
  with a b c show ?thesis by simp
qed

subsection \<open>Menu items of other businesses\<close>

text \<open>
  The two handlers that write to \<open>menu_items\<close> match on the session's business id: whatever
  the request and whichever store call fails, the rows of \<open>menu_items\<close> that belong to
  another business are left as they were.
\<close>

lemma update_price_foreign:
  "filter (\<lambda>m. business_id m \<noteq> bid) (t_menu_items (update_price bid u s))
     = filter (\<lambda>m. business_id m \<noteq> bid) (t_menu_items s)"
proof -
  have "filter (\<lambda>m. business_id m \<noteq> bid)
          (map (\<lambda>m. if match_item (u_id_menu_item u) bid m then m\<lparr>price := u_price u\<rparr> else m) xs)
        = filter (\<lambda>m. business_id m \<noteq> bid) xs" for xs
    by (induction xs) (auto simp: match_item_def)
  then show ?thesis by (simp add: update_price_def)
qed

lemma update_loop_foreign:
  "filter (\<lambda>m. business_id m \<noteq> bid) (t_menu_items (snd (update_loop fails n bid us s)))
     = filter (\<lambda>m. business_id m \<noteq> bid) (t_menu_items s)"
  by (induction us arbitrary: n s) (simp_all add: update_price_foreign split: option.splits)

lemma patch_menu_items_foreign:
  "filter (\<lambda>m. business_id m \<noteq> su_id user)
     (t_menu_items (snd (patch_menu_items fails (Some user) updates s)))
   = filter (\<lambda>m. business_id m \<noteq> su_id user) (t_menu_items s)"
proof (cases updates)
  case NotArray
  then show ?thesis by (simp add: patch_menu_items_def)
next
  case (Array us)
  then show ?thesis
    using update_loop_foreign[of "su_id user" fails 0 us s]
    by (cases "update_loop fails 0 (su_id user) us s") (simp add: patch_menu_items_def)
qed

lemma delete_menu_items_id_foreign:
  "filter (\<lambda>m. business_id m \<noteq> su_id user)
     (t_menu_items (snd (delete_menu_items_id fails (Some user) menuItemId s)))
   = filter (\<lambda>m. business_id m \<noteq> su_id user) (t_menu_items s)"
proof -
  have "filter (\<lambda>m. business_id m \<noteq> bid) (filter (\<lambda>m. \<not> match_item i bid m) xs)
        = filter (\<lambda>m. business_id m \<noteq> bid) xs" for bid i xs
    by (induction xs) (auto simp: match_item_def)
  then show ?thesis
    by (simp add: delete_menu_items_id_def delete_sales_def delete_menu_item_def Let_def
          split: option.splits)
qed

subsection \<open>POST /api/login\<close>

lemma post_login_string_password:
  assumes "fails 0 = None"
    and "filter (\<lambda>b. email b = em) (t_business_info s) = []
         \<or> (filter (\<lambda>b. email b = em) (t_business_info s) = [user]
            \<and> password user = Some h \<and> \<not> check p h)"
  shows "post_login fails check em (Some p) s sess =
           (Response 401 (FailureBody ''Invalid credentials''), sess)"
  using assms by (auto simp: post_login_def maybeSingle_def bcrypt_compareSync_def)

text \<open>
  Claim C10. A failing login with a password that is a string gets the same answer whether
  no business has the email or the one business with the email has another password (the
  lemma above). Without a password the two cases differ: for the email of a business, the
  hasher's check throws and no response is sent; for an unknown email the answer is the 401.
  The claim that every failing login gets the same 401 fails on the code at this input.
\<close>

theorem post_login_without_password:
  "post_login no_failure (\<lambda>p h. h = ''hash'' @ p) ''a@example.com'' None ex_store None
     = (NoResponse, None)
   \<and> post_login no_failure (\<lambda>p h. h = ''hash'' @ p) ''nobody@example.com'' None ex_store None
     = (Response 401 (FailureBody ''Invalid credentials''), None)
   \<and> map email (t_business_info ex_store) = [''a@example.com'', ''b@example.com'']"
  by (simp add: post_login_def maybeSingle_def bcrypt_compareSync_def no_failure_def
        ex_store_def ex_businesses_def)

subsection \<open>GET /api/menu-counts\<close>

lemma count_step_inner:
  assumes "products mi = Some p" "categories p = Some c"
  shows "count_step acc mi = Inr (count_one acc (category_name c))"
  using assms by (simp add: count_step_def count_one_def Let_def)

lemma reduce_count_step_ok:
  "\<forall>mi\<in>set items. inner_categories mi \<Longrightarrow>
   reduce_js count_step items acc = Inr (foldl count_one acc (category_names items))"
proof (induction items arbitrary: acc)
  case Nil
  show ?case by (simp add: category_names_def)
next
  case (Cons mi items)
  from Cons.prems obtain p c where pc: "products mi = Some p" "categories p = Some c"
    by (auto simp: inner_categories_def split: option.splits)
  have names: "category_names (mi # items) = category_name c # category_names items"
    using pc by (simp add: category_names_def)
  from Cons.prems have "\<forall>mi\<in>set items. inner_categories mi" by simp
  from Cons.IH[OF this] count_step_inner[OF pc] names show ?case by simp
qed

lemma reduce_count_step_error:
  "\<exists>mi\<in>set items. \<not> inner_categories mi \<Longrightarrow> reduce_js count_step items acc = Inl TypeError"
proof (induction items arbitrary: acc)
  case Nil
  then show ?case by simp
next
  case (Cons mi items)
  show ?case
  proof (cases "inner_categories mi")
    case True
    then obtain p c where pc: "products mi = Some p" "categories p = Some c"
      by (auto simp: inner_categories_def split: option.splits)
    from True Cons.prems have "\<exists>mi\<in>set items. \<not> inner_categories mi" by simp
    then show ?thesis using Cons.IH count_step_inner[OF pc] by simp
  next
    case False
    then have "count_step acc mi = Inl TypeError"
      by (auto simp: inner_categories_def count_step_def split: option.splits)
    then show ?thesis by simp
  qed
qed

lemma count_one_distinct: "distinct (map fst acc) \<Longrightarrow> distinct (map fst (count_one acc k))"
  by (simp add: count_one_def assign_property_def distinct_update)

lemma foldl_count_one_distinct:
  "distinct (map fst acc) \<Longrightarrow> distinct (map fst (foldl count_one acc cs))"
  by (induction cs arbitrary: acc) (simp_all add: count_one_distinct)

lemma inherited_member_nonempty: "inherited_member c = Some src \<Longrightarrow> src \<noteq> []"
  by (auto simp: inherited_member_def split: if_splits)

lemma count_value_Suc:
  "or_zero_plus_one [(c, count_value c (Suc k))] c = count_value c (Suc (Suc k))"
  by (auto simp: or_zero_plus_one_def count_value_def replicate_append_same
           dest: inherited_member_nonempty split: option.splits)

lemma or_zero_plus_one_first:
  "map_of acc c = None \<Longrightarrow> or_zero_plus_one acc c = count_value c 1"
  by (simp add: or_zero_plus_one_def count_value_def split: option.splits)

lemma or_zero_plus_one_next:
  "map_of acc c = Some (count_value c (Suc k)) \<Longrightarrow>
   or_zero_plus_one acc c = count_value c (Suc (Suc k))"
  using count_value_Suc[of c k] by (simp add: or_zero_plus_one_def)

lemma counts_map_of:
  "map_of (foldl count_one [] cs) k =
     (if k \<in> set cs \<and> k \<noteq> ''__proto__'' then Some (count_value k (count_list cs k)) else None)"
proof (induction cs arbitrary: k rule: rev_induct)
  case Nil
  show ?case by simp
next
  case (snoc c cs)
  let ?obj = "foldl count_one [] cs"
  show ?case
  proof (cases "c = ''__proto__''")
    case True
    then have "count_one ?obj c = ?obj" by (simp add: count_one_def assign_property_def)
    with snoc True show ?thesis by auto
  next
    case False
    have v: "or_zero_plus_one ?obj c = count_value c (Suc (count_list cs c))"
    proof (cases "c \<in> set cs")
      case True
      then obtain j where j: "count_list cs c = Suc j"
        by (cases "count_list cs c") (auto simp: count_list_0_iff)
      with snoc[of c] True False show ?thesis
        by (simp add: or_zero_plus_one_next)
    next
      case F: False
      then have "count_list cs c = 0" by (simp add: count_list_0_iff)
      moreover from snoc[of c] F have "map_of ?obj c = None" by simp
      ultimately show ?thesis by (simp add: or_zero_plus_one_first)
    qed
    have "map_of (count_one ?obj c) k =
            (if k = c then Some (count_value c (Suc (count_list cs c))) else map_of ?obj k)"
      using False by (simp add: count_one_def assign_property_def update_conv' v)
    with snoc[of k] False show ?thesis by auto
  qed
qed


lemma mset_object_entries: "mset (object_entries obj) = mset obj"
  by (simp add: object_entries_def)

lemma counts_mset_eq:
  assumes "mset cs1 = mset cs2"
  shows "mset (foldl count_one [] cs1) = mset (foldl count_one [] cs2)"
proof -
  have s: "set cs1 = set cs2" using assms by (rule mset_eq_setD)
  have c: "count_list cs1 k = count_list cs2 k" for k
    using assms by (metis count_mset)
  have "map_of (foldl count_one [] cs1) = map_of (foldl count_one [] cs2)"
    by (rule ext) (simp add: counts_map_of s c)
  moreover have d1: "distinct (map fst (foldl count_one [] cs1))"
    and d2: "distinct (map fst (foldl count_one [] cs2))"
    by (simp_all add: foldl_count_one_distinct)
  ultimately have "set (foldl count_one [] cs1) = set (foldl count_one [] cs2)"
    by (simp add: map_of_inject_set)
  moreover from d1 d2 have "distinct (foldl count_one [] cs1)" "distinct (foldl count_one [] cs2)"
    by (simp_all add: distinct_map)
  ultimately show ?thesis by (simp add: set_eq_iff_mset_eq_distinct)
qed

lemma mset_category_names:
  "mset items1 = mset items2 \<Longrightarrow> mset (category_names items1) = mset (category_names items2)"
proof -
  assume a: "mset items1 = mset items2"
  have "mset (category_names items) =
        (\<Sum>mi\<in>#mset items. mset (case products mi of
                          None \<Rightarrow> []
                        | Some p \<Rightarrow> (case categories p of None \<Rightarrow> [] | Some c \<Rightarrow> [category_name c])))" for items
    unfolding category_names_def by (induction items) simp_all
  with a show ?thesis by simp
qed

lemma counts_keys: "fst ` set (foldl count_one [] cs) = set cs - {''__proto__''}"
proof -
  have "dom (map_of (foldl count_one [] cs)) = set cs - {''__proto__''}"
    by (auto simp: dom_def counts_map_of)
  then show ?thesis by (simp add: dom_map_of_conv_image_fst)
qed

lemma counts_set:
  "set (foldl count_one [] cs)
     = (\<lambda>c. (c, count_value c (count_list cs c))) ` (set cs - {''__proto__''})"
proof -
  have "distinct (map fst (foldl count_one [] cs))" by (simp add: foldl_count_one_distinct)
  then have "set (foldl count_one [] cs) = {(k, v). map_of (foldl count_one [] cs) k = Some v}"
    by (rule set_map_of_compr)
  also have "\<dots> = (\<lambda>c. (c, count_value c (count_list cs c))) ` (set cs - {''__proto__''})"
    by (auto simp: counts_map_of split: if_splits)
  finally show ?thesis .
qed

lemma inj_on_count_rows:
  assumes "distinct (map fst al)" "inj_on ckey (fst ` set al)"
  shows "inj_on (\<lambda>r. ckey (cc_category r)) (count_row ` set al)"
proof (rule inj_onI)
  fix r1 r2
  assume "r1 \<in> count_row ` set al" "r2 \<in> count_row ` set al"
    and e: "ckey (cc_category r1) = ckey (cc_category r2)"
  then obtain k1 v1 k2 v2 where
    m: "(k1, v1) \<in> set al" "(k2, v2) \<in> set al" "r1 = count_row (k1, v1)" "r2 = count_row (k2, v2)"
    by auto
  from e m have "ckey k1 = ckey k2" by (simp add: count_row_def)
  moreover from m have "k1 \<in> fst ` set al" "k2 \<in> fst ` set al" by force+
  ultimately have k: "k1 = k2" using assms(2) by (auto dest: inj_onD)
  with m assms(1) have "v1 = v2" by (auto dest: eq_key_imp_eq_value)
  with k m show "r1 = r2" by simp
qed

lemma count_by_category_ok:
  "\<forall>mi\<in>set items. inner_categories mi \<Longrightarrow>
   count_by_category ckey items =
     Inr (sort_key (\<lambda>r. ckey (cc_category r))
            (map count_row (object_entries (foldl count_one [] (category_names items)))))"
  by (simp add: count_by_category_def reduce_count_step_ok count_row_def)

lemma count_by_category_error:
  "\<exists>mi\<in>set items. \<not> inner_categories mi \<Longrightarrow> count_by_category ckey items = Inl TypeError"
  by (simp add: count_by_category_def reduce_count_step_error)

lemma count_by_category_permutation:
  assumes "mset items1 = mset items2" "inj_on ckey (set (category_names items1))"
  shows "count_by_category ckey items1 = count_by_category ckey items2"
proof (cases "\<forall>mi\<in>set items1. inner_categories mi")
  case True
  have s: "set items1 = set items2" using assms(1) by (rule mset_eq_setD)
  let ?f = "\<lambda>r. ckey (cc_category r)"
  let ?a1 = "foldl count_one [] (category_names items1)"
  let ?a2 = "foldl count_one [] (category_names items2)"
  let ?r1 = "map count_row (object_entries ?a1)"
  let ?r2 = "map count_row (object_entries ?a2)"
  have "mset ?a1 = mset ?a2"
    by (rule counts_mset_eq) (rule mset_category_names[OF assms(1)])
  then have m: "mset ?r1 = mset (sort_key ?f ?r2)"
    by (simp add: mset_object_entries)
  have "set (object_entries ?a1) = set ?a1"
    using mset_object_entries[of ?a1] by (rule mset_eq_setD)
  then have "set ?r1 = count_row ` set ?a1" by simp
  moreover have "inj_on ckey (fst ` set ?a1)"
    unfolding counts_keys by (rule inj_on_subset[OF assms(2)]) auto
  then have "inj_on ?f (count_row ` set ?a1)"
    by (intro inj_on_count_rows) (simp_all add: foldl_count_one_distinct)
  ultimately have i: "inj_on ?f (set ?r1)" by simp
  have "sort_key ?f ?r1 = sort_key ?f ?r2"
    by (rule sort_key_inj_key_eq[OF m i]) simp
  with True s show ?thesis by (simp add: count_by_category_ok)
next
  case False
  moreover have "set items1 = set items2" using assms(1) by (rule mset_eq_setD)
  ultimately show ?thesis by (simp add: count_by_category_error)
qed

lemma count_value_number: "inherited_member c = None \<Longrightarrow> count_value c k = Number k"
  by (simp add: count_value_def)

lemma count_by_category_result:
  assumes "\<forall>mi\<in>set items. inner_categories mi"
    and "\<forall>c\<in>set (category_names items). inherited_member c = None"
  shows "\<exists>results. count_by_category ckey items = Inr results
           \<and> sorted (map (\<lambda>r. ckey (cc_category r)) results)
           \<and> distinct (map cc_category results)
           \<and> set results = (\<lambda>c. \<lparr>cc_category = c,
                                   cc_count_on_menu = Number (count_list (category_names items) c)\<rparr>)
                             ` set (category_names items)"
proof -
  let ?f = "\<lambda>r. ckey (cc_category r)"
  let ?cs = "category_names items"
  let ?a = "foldl count_one [] ?cs"
  let ?r = "map count_row (object_entries ?a)"
  have np: "''__proto__'' \<notin> set ?cs"
    using assms(2) by (auto simp: inherited_member_def)
  have e: "set (object_entries ?a) = set ?a"
    using mset_object_entries[of ?a] by (rule mset_eq_setD)
  have c: "cc_category (count_row kv) = fst kv" for kv
    by (simp add: count_row_def split_def)
  have "mset (map cc_category (sort_key ?f ?r)) = image_mset cc_category (mset ?r)"
    by simp
  also have "\<dots> = image_mset fst (mset (object_entries ?a))"
    by (simp add: image_mset.compositionality comp_def c)
  also have "\<dots> = mset (map fst ?a)"
    by (simp add: mset_object_entries)
  finally have "mset (map cc_category (sort_key ?f ?r)) = mset (map fst ?a)" .
  moreover have "distinct (map fst ?a)" by (simp add: foldl_count_one_distinct)
  ultimately have d: "distinct (map cc_category (sort_key ?f ?r))"
    by (metis mset_eq_imp_distinct_iff)
  have "set (sort_key ?f ?r) = count_row ` set ?a" using e by simp
  also have "\<dots> = (\<lambda>c. \<lparr>cc_category = c, cc_count_on_menu = count_value c (count_list ?cs c)\<rparr>)
                      ` set ?cs"
    using np by (simp add: counts_set image_image count_row_def)
  also have "\<dots> = (\<lambda>c. \<lparr>cc_category = c, cc_count_on_menu = Number (count_list ?cs c)\<rparr>)
                      ` set ?cs"
    using assms(2) by (intro image_cong refl) (simp add: count_value_number)
  finally have st: "set (sort_key ?f ?r)
      = (\<lambda>c. \<lparr>cc_category = c, cc_count_on_menu = Number (count_list ?cs c)\<rparr>) ` set ?cs" .
  show ?thesis
    by (intro exI[of _ "sort_key ?f ?r"] conjI count_by_category_ok[OF assms(1)] d st) simp
qed


lemma ex_row_inner: "inner_categories (ex_row i c)"
  by (simp add: inner_categories_def ex_row_def ex_tea_def)

lemma ex_row_names: "category_names (map (\<lambda>(i, c). ex_row i c) ics) = map snd ics"
  by (induction ics) (auto simp: category_names_def ex_row_def ex_tea_def)

lemma soft_hyphen_tie:
  "soft_hyphen_key ex_tea_hyphenated = soft_hyphen_key ''Tea'' \<and> ex_tea_hyphenated \<noteq> ''Tea''"
  by (simp add: soft_hyphen_key_def ex_tea_hyphenated_def)

text \<open>
  Claim C8, as stated, fails on the code. Under a collation that does not tell two category
  names apart, here \<open>Tea\<close> with and without a soft hyphen, the stable sort leaves the two
  entries in the order in which the names first occur in the rows: two row sequences that
  are permutations of each other get different arrays. And a category name that is the name
  of a member of \<open>Object.prototype\<close> is not counted: \<open>constructor\<close> gets a string, and
  \<open>__proto__\<close> gets no entry.
\<close>

theorem menu_counts_order_dependent_counterexample:
  "mset [ex_row 1 ''Tea'', ex_row 2 ex_tea_hyphenated]
     = mset [ex_row 2 ex_tea_hyphenated, ex_row 1 ''Tea'']
   \<and> menu_counts_body soft_hyphen_key (Data [ex_row 1 ''Tea'', ex_row 2 ex_tea_hyphenated])
     = Response 200 (MenuCounts [\<lparr>cc_category = ''Tea'', cc_count_on_menu = Number 1\<rparr>,
                                  \<lparr>cc_category = ex_tea_hyphenated, cc_count_on_menu = Number 1\<rparr>])
   \<and> menu_counts_body soft_hyphen_key (Data [ex_row 2 ex_tea_hyphenated, ex_row 1 ''Tea''])
     = Response 200 (MenuCounts [\<lparr>cc_category = ex_tea_hyphenated, cc_count_on_menu = Number 1\<rparr>,
                                  \<lparr>cc_category = ''Tea'', cc_count_on_menu = Number 1\<rparr>])
   \<and> menu_counts_body soft_hyphen_key (Data [ex_row 1 ''Tea'', ex_row 2 ex_tea_hyphenated])
     \<noteq> menu_counts_body soft_hyphen_key (Data [ex_row 2 ex_tea_hyphenated, ex_row 1 ''Tea''])
   \<and> menu_counts_body soft_hyphen_key
        (Data [ex_row 3 ''constructor'', ex_row 4 ''__proto__'', ex_row 5 ''constructor''])
     = Response 200 (MenuCounts
         [\<lparr>cc_category = ''constructor'',
           cc_count_on_menu = JsString ''function Object() { [native code] }11''\<rparr>])"
proof -
  have ne: "ex_tea_hyphenated \<noteq> ''Tea''" "''Tea'' \<noteq> ex_tea_hyphenated"
    "ex_tea_hyphenated \<noteq> ''__proto__''"
    by (simp_all add: ex_tea_hyphenated_def)
  have idx: "\<not> is_array_index ''Tea''" "\<not> is_array_index ex_tea_hyphenated"
    "\<not> is_array_index ''constructor''"
    by (simp_all add: is_array_index_def is_digit_def ex_tea_hyphenated_def)
  have inh: "inherited_member ''Tea'' = None" "inherited_member ex_tea_hyphenated = None"
    "inherited_member ''constructor'' = Some ''function Object() { [native code] }''"
    by (simp_all add: inherited_member_def prototype_methods_def ex_tea_hyphenated_def)
  have a: "count_by_category soft_hyphen_key [ex_row 1 ''Tea'', ex_row 2 ex_tea_hyphenated]
        = Inr [\<lparr>cc_category = ''Tea'', cc_count_on_menu = Number 1\<rparr>,
               \<lparr>cc_category = ex_tea_hyphenated, cc_count_on_menu = Number 1\<rparr>]"
    using ex_row_names[of "[(1, ''Tea''), (2, ex_tea_hyphenated)]"] ne
    by (simp add: count_by_category_ok ex_row_inner count_one_def assign_property_def
          or_zero_plus_one_def inh object_entries_def idx count_row_def soft_hyphen_tie)
  have b: "count_by_category soft_hyphen_key [ex_row 2 ex_tea_hyphenated, ex_row 1 ''Tea'']
        = Inr [\<lparr>cc_category = ex_tea_hyphenated, cc_count_on_menu = Number 1\<rparr>,
               \<lparr>cc_category = ''Tea'', cc_count_on_menu = Number 1\<rparr>]"
    using ex_row_names[of "[(2, ex_tea_hyphenated), (1, ''Tea'')]"] ne
    by (simp add: count_by_category_ok ex_row_inner count_one_def assign_property_def
          or_zero_plus_one_def inh object_entries_def idx count_row_def soft_hyphen_tie)
  have c: "count_by_category soft_hyphen_key
             [ex_row 3 ''constructor'', ex_row 4 ''__proto__'', ex_row 5 ''constructor'']
        = Inr [\<lparr>cc_category = ''constructor'',
                cc_count_on_menu = JsString ''function Object() { [native code] }11''\<rparr>]"
    using ex_row_names[of "[(3, ''constructor''), (4, ''__proto__''), (5, ''constructor'')]"]
    by (simp add: count_by_category_ok ex_row_inner count_one_def assign_property_def
          or_zero_plus_one_def inh object_entries_def idx count_row_def)
  have d: "mset [ex_row 1 ''Tea'', ex_row 2 ex_tea_hyphenated]
             = mset [ex_row 2 ex_tea_hyphenated, ex_row 1 ''Tea'']"
    by (simp add: add_mset_commute)
  from a b c d ne show ?thesis by (simp add: menu_counts_body_def)
qed

text \<open>
  Claim C8, amended. For two row sequences that are permutations of each other and whose
  category names the collation tells apart (no two different names compare as equal), the
  answer of GET /api/menu-counts is the same. When, moreover, every row has a product with a
  category and no category name is the name of a member of \<open>Object.prototype\<close>, the answer
  is the list of the category names that occur, each once and with the number of rows of
  that category, sorted ascending by the collation. The collation is a parameter.
\<close>

theorem menu_counts_permutation_invariant:
  assumes "mset items1 = mset items2" and "inj_on ckey (set (category_names items1))"
  shows "menu_counts_body ckey (Data items1) = menu_counts_body ckey (Data items2)
         \<and> ((\<forall>mi\<in>set items1. inner_categories mi)
              \<and> (\<forall>c\<in>set (category_names items1). inherited_member c = None) \<longrightarrow>
              (\<exists>results. menu_counts_body ckey (Data items1) = Response 200 (MenuCounts results)
                 \<and> sorted (map (\<lambda>r. ckey (cc_category r)) results)
                 \<and> distinct (map cc_category results)
                 \<and> set results =
                     (\<lambda>c. \<lparr>cc_category = c,
                            cc_count_on_menu = Number (count_list (category_names items1) c)\<rparr>)
                     ` set (category_names items1)))"
proof (intro conjI impI)
  show "menu_counts_body ckey (Data items1) = menu_counts_body ckey (Data items2)"
    using count_by_category_permutation[OF assms] by (simp add: menu_counts_body_def)
next
  assume h: "(\<forall>mi\<in>set items1. inner_categories mi)
              \<and> (\<forall>c\<in>set (category_names items1). inherited_member c = None)"
  from count_by_category_result[OF h[THEN conjunct1] h[THEN conjunct2], of ckey]
  obtain results where
    r: "count_by_category ckey items1 = Inr results"
       "sorted (map (\<lambda>r. ckey (cc_category r)) results)"
       "distinct (map cc_category results)"
       "set results = (\<lambda>c. \<lparr>cc_category = c,
                             cc_count_on_menu = Number (count_list (category_names items1) c)\<rparr>)
                       ` set (category_names items1)"
    by blast
  show "\<exists>results. menu_counts_body ckey (Data items1) = Response 200 (MenuCounts results)
                 \<and> sorted (map (\<lambda>r. ckey (cc_category r)) results)
                 \<and> distinct (map cc_category results)
                 \<and> set results =
                     (\<lambda>c. \<lparr>cc_category = c,
                            cc_count_on_menu = Number (count_list (category_names items1) c)\<rparr>)
                     ` set (category_names items1)"
    by (intro exI[of _ results] conjI r(2-4)) (simp add: menu_counts_body_def r(1))
qed

lemma ex_category_names:
  "category_names (map (embed_row ex_store) ex_menu_items) = [''Food'', ''Drinks'', ''Drinks'']"
  by (simp add: category_names_def embed_row_def ex_store_def ex_menu_items_def ex_products_def)

theorem menu_counts_permutation_invariant_witness:
  "menu_counts_body first_code_unit (Data (map (embed_row ex_store) ex_menu_items))
     = menu_counts_body first_code_unit (Data (rev (map (embed_row ex_store) ex_menu_items)))
   \<and> (\<exists>results. menu_counts_body first_code_unit (Data (map (embed_row ex_store) ex_menu_items))
                    = Response 200 (MenuCounts results)
          \<and> sorted (map (\<lambda>r. first_code_unit (cc_category r)) results)
          \<and> results = [\<lparr>cc_category = ''Drinks'', cc_count_on_menu = Number 2\<rparr>,
                        \<lparr>cc_category = ''Food'', cc_count_on_menu = Number 1\<rparr>])"
proof -
  let ?items = "map (embed_row ex_store) ex_menu_items"
  have h1: "mset ?items = mset (rev ?items)" by simp
  have h2: "inj_on first_code_unit (set (category_names ?items))"
    unfolding ex_category_names by (simp add: first_code_unit_def)
  have ok: "\<forall>mi\<in>set ?items. inner_categories mi"
    by (simp add: inner_categories_def embed_row_def ex_store_def ex_menu_items_def ex_products_def)
  have np: "\<forall>c\<in>set (category_names ?items). inherited_member c = None"
    unfolding ex_category_names by (simp add: inherited_member_def prototype_methods_def)
  note inv = menu_counts_permutation_invariant[OF h1 h2]
  have e: "menu_counts_body first_code_unit (Data ?items)
          = menu_counts_body first_code_unit (Data (rev ?items))"
    by (rule inv[THEN conjunct1])
  from inv[THEN conjunct2, THEN mp, OF conjI, OF ok np] obtain results where
    r: "menu_counts_body first_code_unit (Data ?items) = Response 200 (MenuCounts results)"
    and srt: "sorted (map (\<lambda>r. first_code_unit (cc_category r)) results)"
    by auto
  have inh: "inherited_member ''Food'' = None" "inherited_member ''Drinks'' = None"
    by (simp_all add: inherited_member_def prototype_methods_def)
  have a: "foldl count_one [] [''Food'', ''Drinks'', ''Drinks'']
             = [(''Food'', Number 1), (''Drinks'', Number 2)]"
    by (simp add: count_one_def assign_property_def or_zero_plus_one_def inh)
  have b: "object_entries [(''Food'', Number 1), (''Drinks'', Number 2)]
             = [(''Food'', Number 1), (''Drinks'', Number 2)]"
    by (simp add: object_entries_def is_array_index_def is_digit_def)
  have "count_by_category first_code_unit ?items
          = Inr [\<lparr>cc_category = ''Drinks'', cc_count_on_menu = Number 2\<rparr>,
                 \<lparr>cc_category = ''Food'', cc_count_on_menu = Number 1\<rparr>]"
    unfolding count_by_category_ok[OF ok] ex_category_names a b
    by (simp add: count_row_def first_code_unit_def)
  then have "menu_counts_body first_code_unit (Data ?items)
     = Response 200 (MenuCounts [\<lparr>cc_category = ''Drinks'', cc_count_on_menu = Number 2\<rparr>,
                                  \<lparr>cc_category = ''Food'', cc_count_on_menu = Number 1\<rparr>])"
    by (simp add: menu_counts_body_def)
  with r have v: "results = [\<lparr>cc_category = ''Drinks'', cc_count_on_menu = Number 2\<rparr>,
                             \<lparr>cc_category = ''Food'', cc_count_on_menu = Number 1\<rparr>]"
    by simp
  show ?thesis
    by (intro conjI e exI[of _ results] r srt v)
qed

subsection \<open>GET /api/items-not-on-menu\<close>

lemma pg_list_empty: "pg_list ''()'' = Some []"
  by (simp add: pg_list_def)

lemma list_all2_map_eq:
  "list_all2 R xs ys \<Longrightarrow> (\<And>x y. R x y \<Longrightarrow> f x = g y) \<Longrightarrow> map f xs = map g ys"
  by (induction rule: list_all2_induct) auto

lemma flatten_product_rel: "flatten_product p = Inr v \<Longrightarrow> catalog_rel p v"
  by (auto simp: flatten_product_def catalog_rel_def split: option.splits)

text \<open>
  Claim C4. For a business with no menu item, the exclusion filter the handler builds is the
  text \<open>()\<close>, which the store reads as the empty list: GET /api/items-not-on-menu answers
  200 with one entry for every product of the catalog, in ascending order of the product
  names; an entry holds the id, name, brand, production city and country, flags and season
  of its product and the name of the product's category. Every product is taken to have a
  category, and the two store calls to answer.
\<close>

theorem items_not_on_menu_empty_exclusion:
  assumes "fails 0 = None" and "fails 1 = None"
    and "eq_business_id s (su_id user) = []"
    and "\<forall>p\<in>set (t_products s). categories p \<noteq> None"
  shows "\<exists>out. get_items_not_on_menu okey fails (Some user) s = Response 200 (NotOnMenu out)
           \<and> list_all2 catalog_rel (sort_key (\<lambda>p. okey (name p)) (t_products s)) out
           \<and> sorted (map (\<lambda>v. okey (cv_name v)) out)
           \<and> mset (map cv_id out) = mset (map id_product (t_products s))"
proof -
  let ?sorted = "sort_key (\<lambda>p. okey (name p)) (t_products s)"
  have keep: "filter (\<lambda>p. categories p \<noteq> None \<and> id_product p \<notin> set []) (t_products s) = t_products s"
    using assms(4) by (simp add: filter_id_conv)
  have sel: "select_products_not_in okey ''()'' s = Data ?sorted"
    by (simp only: select_products_not_in_def pg_list_empty option.case keep)
  have "\<forall>p\<in>set ?sorted. \<exists>v. flatten_product p = Inr v"
    using assms(4) by (auto simp: flatten_product_def split: option.splits)
  from map_js_all[OF this] obtain out where
    o: "map_js flatten_product ?sorted = Inr out"
       "list_all2 (\<lambda>p v. flatten_product p = Inr v) ?sorted out"
    by blast
  from o(2) have rel: "list_all2 catalog_rel ?sorted out"
    by (rule list_all2_mono) (rule flatten_product_rel)
  have n: "map (\<lambda>p. okey (name p)) ?sorted = map (\<lambda>v. okey (cv_name v)) out"
    by (rule list_all2_map_eq[OF rel]) (simp add: catalog_rel_def)
  have i: "map id_product ?sorted = map cv_id out"
    by (rule list_all2_map_eq[OF rel]) (simp add: catalog_rel_def)
  have s1: "sorted (map (\<lambda>v. okey (cv_name v)) out)"
    unfolding n[symmetric] by (rule sorted_sort_key)
  have "mset (map id_product ?sorted) = mset (map id_product (t_products s))" by simp
  then have s2: "mset (map cv_id out) = mset (map id_product (t_products s))"
    by (simp only: i)
  have r: "get_items_not_on_menu okey fails (Some user) s = Response 200 (NotOnMenu out)"
    using assms(1-3) sel o(1) by (simp add: get_items_not_on_menu_def store_call_def)
  show ?thesis by (intro exI[of _ out] conjI r rel s1 s2)
qed

theorem items_not_on_menu_empty_exclusion_witness:
  "\<exists>out. get_items_not_on_menu first_code_unit no_failure (Some (ex_user 3)) ex_store
            = Response 200 (NotOnMenu out)
     \<and> out = [\<lparr>cv_id = 11, cv_name = ''Bread'', cv_brand = ''Bako'', cv_category = ''Food'',
                cv_prodCity = ''Lyon'', cv_prodCountry = ''France'', cv_is_trending = False,
                cv_is_high_margin = True, cv_eco_friendly = True, cv_season = None\<rparr>,
               \<lparr>cv_id = 10, cv_name = ''Cola'', cv_brand = ''Acme'', cv_category = ''Drinks'',
                cv_prodCity = ''Ghent'', cv_prodCountry = ''Belgium'', cv_is_trending = True,
                cv_is_high_margin = False, cv_eco_friendly = False,
                cv_season = Some ''Summer''\<rparr>]"
proof -
  have f: "no_failure 0 = None" "no_failure 1 = None" by (simp_all add: no_failure_def)
  have e: "eq_business_id ex_store (su_id (ex_user 3)) = []"
    by (simp add: eq_business_id_def ex_store_def ex_menu_items_def ex_user_def)
  have c: "\<forall>p\<in>set (t_products ex_store). categories p \<noteq> None"
    by (simp add: ex_store_def ex_products_def)
  from items_not_on_menu_empty_exclusion[where fails = no_failure and okey = first_code_unit,
         OF f e c]
  obtain out where
    r: "get_items_not_on_menu first_code_unit no_failure (Some (ex_user 3)) ex_store
            = Response 200 (NotOnMenu out)"
    and l: "list_all2 catalog_rel
                 (sort_key (\<lambda>p. first_code_unit (name p)) (t_products ex_store)) out"
    by auto
  have srt: "sort_key (\<lambda>p. first_code_unit (name p)) (t_products ex_store)
               = [ex_products ! 1, ex_products ! 0]"
    by (simp add: ex_store_def ex_products_def first_code_unit_def)
  from l obtain v1 v2 where
    o: "out = [v1, v2]" "catalog_rel (ex_products ! 1) v1" "catalog_rel (ex_products ! 0) v2"
    unfolding srt by (auto simp: list_all2_Cons1)
  from o(2) have v1: "v1 = \<lparr>cv_id = 11, cv_name = ''Bread'', cv_brand = ''Bako'', cv_category = ''Food'',
                cv_prodCity = ''Lyon'', cv_prodCountry = ''France'', cv_is_trending = False,
                cv_is_high_margin = True, cv_eco_friendly = True, cv_season = None\<rparr>"
    by (cases v1) (simp add: catalog_rel_def ex_products_def)
  from o(3) have v2: "v2 = \<lparr>cv_id = 10, cv_name = ''Cola'', cv_brand = ''Acme'', cv_category = ''Drinks'',
                cv_prodCity = ''Ghent'', cv_prodCountry = ''Belgium'', cv_is_trending = True,
                cv_is_high_margin = False, cv_eco_friendly = False,
                cv_season = Some ''Summer''\<rparr>"
    by (cases v2) (simp add: catalog_rel_def ex_products_def)
  show ?thesis
    by (intro exI[of _ out] conjI r) (simp add: o(1) v1 v2)
qed

subsection \<open>GET /api/sales/last-year\<close>

lemma list_all2_insort_key:
  assumes "list_all2 R xs ys" "R x y" "\<And>a b. R a b \<Longrightarrow> f a = g b"
  shows "list_all2 R (insort_key f x xs) (insort_key g y ys)"
  using assms(1)
proof (induction rule: list_all2_induct)
  case Nil
  show ?case using assms(2) by simp
next
  case (Cons a as b bs)
  have "f a = g b" "f x = g y" using Cons.hyps(1) assms(2,3) by auto
  with Cons assms(2) show ?case by simp
qed

lemma list_all2_sort_key:
  assumes "list_all2 R xs ys" "\<And>a b. R a b \<Longrightarrow> f a = g b"
  shows "list_all2 R (sort_key f xs) (sort_key g ys)"
  using assms(1)
proof (induction rule: list_all2_induct)
  case Nil
  show ?case by simp
next
  case (Cons a as b bs)
  then show ?case by (simp add: list_all2_insort_key[OF _ _ assms(2)])
qed

lemma has_subcategory_embed:
  "(inner_categories (embed_row s m) \<and> inner_subcategories (embed_row s m)) = has_subcategory s m"
  by (auto simp: inner_categories_def inner_subcategories_def has_subcategory_def embed_row_def
           split: option.splits)

lemma last_year_row_embed:
  assumes "\<forall>x\<in>set (t_sales s). valid_date (sold_on x)" "Y \<le> 9999"
    and "has_subcategory s m"
  shows "\<exists>v. last_year_row (pad4 Y @ ''-01-01'') (pad4 Y @ ''-12-31'') (embed_row s m) = Inr v
           \<and> last_year_rel s Y m v"
proof -
  from assms(3) obtain p c sc where
    f: "find (\<lambda>p. id_product p = product_id m) (t_products s) = Some p"
    and c: "categories p = Some c" and sc: "subcategories p = Some sc"
    by (auto simp: has_subcategory_def split: option.splits)
  from f have p: "products (embed_row s m) = Some p" by (simp add: embed_row_def)
  have i: "id_menu_item (embed_row s m) = id_menu_item m" "price (embed_row s m) = price m"
    "created_at (embed_row s m) = created_at m"
    by (simp_all add: embed_row_def)
  show ?thesis
    using p f c sc i sales_of_embed_row[OF assms(1,2), of m]
    by (simp add: last_year_row_def last_year_rel_def subcat_or_empty_def)
qed

lemma ex_tea_views:
  "get_sales_last_year 2027 no_failure (Some (ex_user 2)) ex_store_tea =
     Response 200 (LastYearStats
       [\<lparr>ly_id_menu_item = 7, ly_id_category = 1, ly_item_name = ''Cola'',
         ly_producent = ''Acme'', ly_category = ''Drinks'', ly_subcategorie = ''Soda'',
         ly_price = 4, ly_created_at = ''2024-03-01'', ly_land = ''Belgium'',
         ly_stad = ''Ghent'', ly_total_sold = 1, ly_is_trending = True,
         ly_is_high_margin = False, ly_eco_friendly = False, ly_season = ''Summer''\<rparr>,
        \<lparr>ly_id_menu_item = 8, ly_id_category = 1, ly_item_name = ''Tea'',
         ly_producent = ''Leaf'', ly_category = ''Drinks'', ly_subcategorie = ''Hot'',
         ly_price = 2, ly_created_at = ''2024-04-01'', ly_land = ''Sri Lanka'',
         ly_stad = ''Kandy'', ly_total_sold = 1, ly_is_trending = False,
         ly_is_high_margin = True, ly_eco_friendly = True, ly_season = ''Unknown''\<rparr>])"
proof -
  have y: "js_string_of_int 2026 = ''2026''"
    by (simp add: js_string_of_year pad4_def digit_char_numerals)
  show ?thesis
    by (simp add: get_sales_last_year_def store_call_def no_failure_def y
          eq_business_id_def embed_row_def inner_categories_def inner_subcategories_def
          ex_store_tea_def ex_tea_def ex_products_def ex_user_def
          last_year_row_def count_between_def js_ge_def js_le_def subcat_or_empty_def
          iso_date_def pad4_def pad2_def digit_char_numerals Let_def)
qed

lemma ex_store_views:
  "get_sales_last_year 2026 no_failure (Some (ex_user 1)) ex_store =
     Response 200 (LastYearStats
       [\<lparr>ly_id_menu_item = 1, ly_id_category = 1, ly_item_name = ''Cola'',
         ly_producent = ''Acme'', ly_category = ''Drinks'', ly_subcategorie = ''Soda'',
         ly_price = 5 / 2, ly_created_at = ''2024-01-01'', ly_land = ''Belgium'',
         ly_stad = ''Ghent'', ly_total_sold = 2, ly_is_trending = True,
         ly_is_high_margin = False, ly_eco_friendly = False, ly_season = ''Summer''\<rparr>])"
proof -
  have y: "js_string_of_int 2025 = ''2025''"
    by (simp add: js_string_of_year pad4_def digit_char_numerals)
  show ?thesis
    by (simp add: get_sales_last_year_def store_call_def no_failure_def y
          eq_business_id_def embed_row_def inner_categories_def inner_subcategories_def
          ex_store_def ex_menu_items_def ex_sales_def ex_products_def ex_user_def
          last_year_row_def count_between_def js_ge_def js_le_def subcat_or_empty_def
          iso_date_def pad4_def pad2_def digit_char_numerals Let_def)
qed

text \<open>
  Claim C3, as stated, fails on the code. With the current year 2027, menu item 8 of the
  second example store has one sale in 2025, the year before last, but its view holds a
  single count, the one of 2026; removing the sales of 2025 from the store leaves the
  answer as it is. The product of menu item 8 has no season, and its view has the season
  \<open>Unknown\<close>. And business 1 of the first example store has two menu items but gets one
  view: the product of menu item 2 has no subcategory, and the query's inner join drops it.
\<close>

theorem get_sales_last_year_two_windows_counterexample:
  "sold_in_year ex_store_tea 8 (2027 - 2) = 1
   \<and> season ex_tea = None
   \<and> get_sales_last_year 2027 no_failure (Some (ex_user 2)) ex_store_tea =
     Response 200 (LastYearStats
       [\<lparr>ly_id_menu_item = 7, ly_id_category = 1, ly_item_name = ''Cola'',
         ly_producent = ''Acme'', ly_category = ''Drinks'', ly_subcategorie = ''Soda'',
         ly_price = 4, ly_created_at = ''2024-03-01'', ly_land = ''Belgium'',
         ly_stad = ''Ghent'', ly_total_sold = 1, ly_is_trending = True,
         ly_is_high_margin = False, ly_eco_friendly = False, ly_season = ''Summer''\<rparr>,
        \<lparr>ly_id_menu_item = 8, ly_id_category = 1, ly_item_name = ''Tea'',
         ly_producent = ''Leaf'', ly_category = ''Drinks'', ly_subcategorie = ''Hot'',
         ly_price = 2, ly_created_at = ''2024-04-01'', ly_land = ''Sri Lanka'',
         ly_stad = ''Kandy'', ly_total_sold = 1, ly_is_trending = False,
         ly_is_high_margin = True, ly_eco_friendly = True, ly_season = ''Unknown''\<rparr>])
   \<and> get_sales_last_year 2027 no_failure (Some (ex_user 2))
         (ex_store_tea\<lparr>t_sales := filter (\<lambda>x. year (sold_on x) \<noteq> 2027 - 2) (t_sales ex_store_tea)\<rparr>)
       = get_sales_last_year 2027 no_failure (Some (ex_user 2)) ex_store_tea
   \<and> map id_menu_item (eq_business_id ex_store (su_id (ex_user 1))) = [2, 1]
   \<and> get_sales_last_year 2026 no_failure (Some (ex_user 1)) ex_store =
     Response 200 (LastYearStats
       [\<lparr>ly_id_menu_item = 1, ly_id_category = 1, ly_item_name = ''Cola'',
         ly_producent = ''Acme'', ly_category = ''Drinks'', ly_subcategorie = ''Soda'',
         ly_price = 5 / 2, ly_created_at = ''2024-01-01'', ly_land = ''Belgium'',
         ly_stad = ''Ghent'', ly_total_sold = 2, ly_is_trending = True,
         ly_is_high_margin = False, ly_eco_friendly = False, ly_season = ''Summer''\<rparr>])"
proof -
  have a: "sold_in_year ex_store_tea 8 (2027 - 2) = 1"
    by (simp add: sold_in_year_def ex_store_tea_def)
  have b: "season ex_tea = None" by (simp add: ex_tea_def)
  have y: "js_string_of_int 2026 = ''2026''"
    by (simp add: js_string_of_year pad4_def digit_char_numerals)
  have c: "get_sales_last_year 2027 no_failure (Some (ex_user 2))
         (ex_store_tea\<lparr>t_sales := filter (\<lambda>x. year (sold_on x) \<noteq> 2027 - 2) (t_sales ex_store_tea)\<rparr>)
       = get_sales_last_year 2027 no_failure (Some (ex_user 2)) ex_store_tea"
    unfolding ex_tea_views
    by (simp add: get_sales_last_year_def store_call_def no_failure_def y
          eq_business_id_def embed_row_def inner_categories_def inner_subcategories_def
          ex_store_tea_def ex_tea_def ex_products_def ex_user_def
          last_year_row_def count_between_def js_ge_def js_le_def subcat_or_empty_def
          iso_date_def pad4_def pad2_def digit_char_numerals Let_def)
  have d: "map id_menu_item (eq_business_id ex_store (su_id (ex_user 1))) = [2, 1]"
    by (simp add: eq_business_id_def ex_store_def ex_menu_items_def ex_user_def)
  from a b c d ex_tea_views ex_store_views show ?thesis by simp
qed

text \<open>
  Claim C3, amended. GET /api/sales/last-year answers one view for every menu item of the
  session's business whose product has a category and a subcategory, and none for the other
  menu items, sorted ascending by menu item id. A view holds one count, \<open>total_sold\<close>, the
  number of the item's sales dated in the calendar year before the current one (first and
  last day included), and no count for the year before that. The flags, the production city
  (\<open>stad\<close>) and the production country (\<open>land\<close>) of the product are merged unchanged; the
  season is merged unchanged when the product has one and is \<open>Unknown\<close> otherwise. The
  current year is taken between 1001 and 10000, the store to answer and to hold valid dates.
\<close>

theorem get_sales_last_year_one_window:
  assumes "fails 0 = None"
    and "1001 \<le> now_year" and "now_year \<le> 10000"
    and "\<forall>x\<in>set (t_sales s). valid_date (sold_on x)"
  shows "\<exists>stats. get_sales_last_year now_year fails (Some user) s
                   = Response 200 (LastYearStats stats)
           \<and> sorted (map ly_id_menu_item stats)
           \<and> list_all2 (last_year_rel s (nat (now_year - 1)))
                 (sort_key id_menu_item
                    (filter (has_subcategory s) (eq_business_id s (su_id user)))) stats"
proof -
  let ?items = "filter (has_subcategory s) (eq_business_id s (su_id user))"
  let ?Y = "nat (now_year - 1)"
  let ?start = "pad4 ?Y @ ''-01-01''" and ?end = "pad4 ?Y @ ''-12-31''"
  have Y: "?Y \<le> 9999" using assms(2,3) by simp
  have str: "js_string_of_int (now_year - 1) = pad4 ?Y"
    using assms(2,3) by (simp add: js_string_of_year)
  have rows: "filter (\<lambda>r. inner_categories r \<and> inner_subcategories r)
                (map (embed_row s) (eq_business_id s (su_id user)))
              = map (embed_row s) ?items"
    by (simp add: filter_map comp_def has_subcategory_embed)
  have ex: "\<exists>v. last_year_row ?start ?end (embed_row s m) = Inr v \<and> last_year_rel s ?Y m v"
    if "m \<in> set ?items" for m
    using last_year_row_embed[OF assms(4) Y] that by simp
  then have "\<forall>r\<in>set (map (embed_row s) ?items). \<exists>v. last_year_row ?start ?end r = Inr v"
    by auto
  from map_js_all[OF this] obtain stats where
    st: "map_js (last_year_row ?start ?end) (map (embed_row s) ?items) = Inr stats"
        "list_all2 (\<lambda>r v. last_year_row ?start ?end r = Inr v) (map (embed_row s) ?items) stats"
    by blast
  from st(2) have "list_all2 (\<lambda>m v. last_year_row ?start ?end (embed_row s m) = Inr v) ?items stats"
    by (simp add: list_all2_map1)
  then have rel: "list_all2 (last_year_rel s ?Y) ?items stats"
  proof (rule list.rel_mono_strong)
    fix m v assume "m \<in> set ?items"
    moreover assume "last_year_row ?start ?end (embed_row s m) = Inr v"
    ultimately show "last_year_rel s ?Y m v"
      using ex[of m] by auto
  qed
  have srt: "list_all2 (last_year_rel s ?Y) (sort_key id_menu_item ?items)
               (sort_key ly_id_menu_item stats)"
    by (rule list_all2_sort_key[OF rel]) (simp add: last_year_rel_def)
  have r: "get_sales_last_year now_year fails (Some user) s
             = Response 200 (LastYearStats (sort_key ly_id_menu_item stats))"
    using assms(1) rows st(1) str by (simp add: get_sales_last_year_def store_call_def)
  show ?thesis
    by (intro exI[of _ "sort_key ly_id_menu_item stats"] conjI r srt sorted_sort_key)
qed

theorem get_sales_last_year_one_window_witness:
  "\<exists>stats. get_sales_last_year 2027 no_failure (Some (ex_user 2)) ex_store_tea
              = Response 200 (LastYearStats stats)
     \<and> sorted (map ly_id_menu_item stats)
     \<and> map ly_id_menu_item stats = [7, 8]
     \<and> map ly_total_sold stats = [1, 1]
     \<and> map ly_season stats = [''Summer'', ''Unknown'']"
proof -
  have f: "no_failure 0 = None" by (simp add: no_failure_def)
  have y: "(1001::int) \<le> 2027" "(2027::int) \<le> 10000" by simp_all
  have v: "\<forall>x\<in>set (t_sales ex_store_tea). valid_date (sold_on x)"
    by (simp add: ex_store_tea_def valid_date_def)
  from get_sales_last_year_one_window[where fails = no_failure and s = ex_store_tea
         and user = "ex_user 2" and now_year = 2027, OF f y v]
  obtain stats where
    r: "get_sales_last_year 2027 no_failure (Some (ex_user 2)) ex_store_tea
          = Response 200 (LastYearStats stats)"
    and s: "sorted (map ly_id_menu_item stats)"
    by auto
  from r have "map ly_id_menu_item stats = [7, 8] \<and> map ly_total_sold stats = [1, 1]
     \<and> map ly_season stats = [''Summer'', ''Unknown'']"
    by (auto simp: ex_tea_views)
  with r s show ?thesis by (intro exI[of _ stats]) simp
qed

end
